theory Spec2Isabelle
  imports
    Main
    "HOL-Library.Char_ord"
    "HOL-Library.List_Lexorder"
    "HOL-Library.Word"
    "HOL-Library.Sublist"
begin

section \<open>The Minio client of pkg/minio/client.go\<close>

text \<open>
  A shallow embedding of the HTTP client in \<^verbatim>\<open>pkg/minio/client.go\<close>: the URL builders, the
  single round trip operations and the paginated listing \<^verbatim>\<open>GetBucket\<close> with its retry loop.

  Go strings are byte strings and are compared bytewise, which is the lexicographic order
  on \<^typ>\<open>string\<close> over the order of \<^typ>\<open>char\<close>. Go's \<^verbatim>\<open>int\<close> is modelled by
  \<^typ>\<open>int\<close>: the only arithmetic on it is \<^verbatim>\<open>maxKeys - len(items)\<close> under
  \<^verbatim>\<open>len(items) < maxKeys\<close> and the attempt counter, neither of which can leave the
  machine range. \<^verbatim>\<open>int64\<close> is \<^typ>\<open>64 word\<close>, read with \<^const>\<open>sint\<close>, because
  \<^verbatim>\<open>offset+length-1\<close> in \<^verbatim>\<open>GetPartial\<close> can wrap.
\<close>

subsection \<open>Data\<close>

text \<open>\<^verbatim>\<open>http.Header\<close> is a \<^verbatim>\<open>map[string][]string\<close>; every key the client uses is already
  in canonical form.\<close>

type_synonym Header = "string \<rightharpoonup> string list"

definition Header_Get :: "Header \<Rightarrow> string \<Rightarrow> string" where
  "Header_Get h k = (case h k of None \<Rightarrow> '''' | Some [] \<Rightarrow> '''' | Some (v # _) \<Rightarrow> v)"

definition Header_Set :: "Header \<Rightarrow> string \<Rightarrow> string \<Rightarrow> Header" where
  "Header_Set h k v = h(k \<mapsto> [v])"

record Request =
  Method :: string
  URL :: string
  ReqHeader :: Header
  ReqContentLength :: "64 word"
  ReqBody :: "string option"

text \<open>A response whose body has been received in full. The transport never hands out a
  response without a body, so \<open>Body\<close> is not optional.\<close>

record Response =
  StatusCode :: int
  Header :: Header
  Body :: string
  ContentLength :: "64 word"

record Bucket =
  BucketName :: string
  CreationDate :: string

record Item =
  Key :: string
  LastModified :: string
  Size :: "64 word"

record listBucketResults =
  Contents :: "Item list"
  IsTruncated :: bool
  MaxKeys :: int
  Name :: string
  Marker :: string

text \<open>The zero value \<^verbatim>\<open>listBucketResults{}\<close>.\<close>

definition listBucketResults_zero :: listBucketResults where
  "listBucketResults_zero =
     \<lparr>Contents = [], IsTruncated = False, MaxKeys = 0, Name = '''', Marker = ''''\<rparr>"

text \<open>The type \<^verbatim>\<open>Error\<close> returned by some API operations.\<close>

record Error =
  Op :: string
  Code :: int
  ErrBody :: string
  ErrHeader :: Header
  UseEndpoint :: string
  MinioCode :: string

record xmlError =
  xCode :: string
  xMessage :: string
  xRequestId :: string
  xBucket :: string
  xEndpoint :: string
  xStringToSignBytes :: string

subsection \<open>Errors and panics\<close>

text \<open>
  A Go \<^verbatim>\<open>error\<close> value. \<^verbatim>\<open>fmt.Errorf\<close> is kept as its format string with its operands,
  which determine the message; \<open>Foreign\<close> is an error made outside this package (by the
  transport, the XML decoder, \<^verbatim>\<open>strconv\<close> or \<^verbatim>\<open>net/url\<close>).
\<close>

datatype fmtarg = ArgInt int | ArgStr string | ArgBres listBucketResults

datatype error =
    ErrorsNew string
  | Errorf string "fmtarg list"
  | ErrNotExist
  | MinioError Error
  | Foreign string

text \<open>A call either returns its results or panics; the only panic of the package is the one
  of \<^verbatim>\<open>newReq\<close>, whose value is determined by the error of \<^verbatim>\<open>http.NewRequest\<close>.\<close>

datatype 'a outcome = Returns 'a | Panics error

subsection \<open>The world outside the package\<close>

text \<open>
  A \<^verbatim>\<open>http.RoundTripper\<close> is a state machine over whatever is behind it (\<open>'t\<close>): given a
  request it answers with a response or an error and moves on. The world records, besides
  that state, every request sent through a transport and every duration slept, in order.
  Closing a body and writing to the log do not influence any result and are left out.
\<close>

type_synonym 't RoundTripper = "Request \<Rightarrow> 't \<Rightarrow> (error + Response) \<times> 't"

record 't world =
  net :: 't
  requests :: "Request list"
  slept :: "int list"

definition RoundTrip :: "'t RoundTripper \<Rightarrow> Request \<Rightarrow> 't world \<Rightarrow> (error + Response) \<times> 't world" where
  "RoundTrip rt req w =
     (case rt req (net w) of (r, n) \<Rightarrow> (r, w\<lparr>net := n, requests := requests w @ [req]\<rparr>))"

text \<open>\<^verbatim>\<open>time.Sleep\<close>; the duration is recorded in milliseconds.\<close>

definition Sleep :: "int \<Rightarrow> 't world \<Rightarrow> 't world" where
  "Sleep ms w = w\<lparr>slept := slept w @ [ms]\<rparr>"

text \<open>What the XML decoder left in a \<^verbatim>\<open>listBucketResults\<close>, the error it returned and the
  bytes it read from the body, which the \<^verbatim>\<open>TeeReader\<close> copies into \<^verbatim>\<open>logbuf\<close>.\<close>

record ListDecode =
  decoded :: listBucketResults
  decodeErr :: "error option"
  teed :: string

text \<open>
  The functions of the Go standard library that the client calls and that are not part of
  the repository. They are parameters of the model:
  \<^item> \<open>DefaultTransport\<close> is \<^verbatim>\<open>http.DefaultTransport\<close>;
  \<^item> \<open>NewRequest_err url\<close> is the error of \<^verbatim>\<open>http.NewRequest("GET", url, nil)\<close>, if any;
  \<^item> \<open>QueryEscape\<close> is \<^verbatim>\<open>url.QueryEscape\<close>;
  \<^item> \<open>ParseInt s\<close> is \<^verbatim>\<open>strconv.ParseInt(s, 10, 64)\<close>;
  \<^item> \<open>Decode_listBucketResults\<close>, \<open>Decode_xmlError\<close>, \<open>Decode_allMyBuckets\<close> and
    \<open>Decode_xmlLocationConstraint\<close> are \<^verbatim>\<open>xml.NewDecoder(body).Decode\<close> into a zero value
    of the respective type: the value as the decoder left it, and its error;
  \<^item> \<open>Base64\<close> is the standard base64 encoding.
\<close>

record 't stdlib =
  DefaultTransport :: "'t RoundTripper"
  NewRequest_err :: "string \<Rightarrow> error option"
  QueryEscape :: "string \<Rightarrow> string"
  ParseInt :: "string \<Rightarrow> 64 word \<times> error option"
  Decode_listBucketResults :: "string \<Rightarrow> ListDecode"
  Decode_xmlError :: "string \<Rightarrow> xmlError"
  Decode_allMyBuckets :: "string \<Rightarrow> Bucket list \<times> error option"
  Decode_xmlLocationConstraint :: "string \<Rightarrow> string \<times> error option"
  Base64 :: "string \<Rightarrow> string"

subsection \<open>Formatting integers\<close>

text \<open>The verb \<^verbatim>\<open>%d\<close>: decimal digits, with a minus sign for a negative number.\<close>

fun digits :: "nat \<Rightarrow> string" where
  "digits n =
     (if n < 10 then [''0123456789'' ! n] else digits (n div 10) @ [''0123456789'' ! (n mod 10)])"

declare digits.simps [simp del]

definition itoa :: "int \<Rightarrow> string" where
  "itoa i = (if i < 0 then CHR ''-'' # digits (nat (- i)) else digits (nat i))"

subsection \<open>Client and URLs\<close>

record 't Client =
  Hostname :: string
  Transport :: "'t RoundTripper option"

definition transport :: "'t stdlib \<Rightarrow> 't Client \<Rightarrow> 't RoundTripper" where
  "transport lib c = (case Transport c of Some t \<Rightarrow> t | None \<Rightarrow> DefaultTransport lib)"

definition hostname :: "'t Client \<Rightarrow> string" where
  "hostname c = (if Hostname c \<noteq> '''' then Hostname c else ''localhost'')"

definition bucketURL :: "'t Client \<Rightarrow> string \<Rightarrow> string" where
  "bucketURL c bucket = ''http://'' @ hostname c @ ''/'' @ bucket @ ''/''"

definition keyURL :: "'t Client \<Rightarrow> string \<Rightarrow> string \<Rightarrow> string" where
  "keyURL c bucket key = bucketURL c bucket @ key"

definition newReq :: "'t stdlib \<Rightarrow> string \<Rightarrow> Request outcome" where
  "newReq lib url =
     (case NewRequest_err lib url of
        Some err \<Rightarrow> Panics err
      | None \<Rightarrow>
          Returns \<lparr>Method = ''GET'', URL = url,
                   ReqHeader = Header_Set Map.empty ''User-Agent'' ''minio'',
                   ReqContentLength = 0, ReqBody = None\<rparr>)"

subsection \<open>GetBucket\<close>

definition MAX_OBJECT_LIST :: int where
  "MAX_OBJECT_LIST = 1000"

definition maxTries :: int where
  "maxTries = 5"

definition parseXML :: "'t stdlib \<Rightarrow> Error \<Rightarrow> Error" where
  "parseXML lib e =
     (let xe = Decode_xmlError lib (ErrBody e);
          e1 = e\<lparr>MinioCode := xCode xe\<rparr>
      in if xCode xe = ''TemporaryRedirect'' then e1\<lparr>UseEndpoint := xEndpoint xe\<rparr> else e1)"

text \<open>
  The inner loop \<^verbatim>\<open>for try := 1; try <= maxTries; try++\<close> of \<^verbatim>\<open>GetBucket\<close>, entered at
  attempt \<open>try\<close> with the current value of \<^verbatim>\<open>bres\<close>. It ends in one of three ways: the
  function returns \<^verbatim>\<open>nil, err\<close>, the loop is left (by \<^verbatim>\<open>break\<close> or by its condition) with
  \<^verbatim>\<open>bres\<close> as it then is, or \<^verbatim>\<open>newReq\<close> panics.

  The \<^verbatim>\<open>err\<close> of the loop body is declared by \<^verbatim>\<open>res, err := ...\<close> in each iteration, so
  it is nil after a round trip that produced a response, and stays nil when the status
  is neither 200 nor below 500.
\<close>

datatype tries_exit = ReturnErr error | LoopLeft listBucketResults | NewReqPanic error

function GetBucket_tries ::
  "'t stdlib \<Rightarrow> 't Client \<Rightarrow> string \<Rightarrow> string \<Rightarrow> int \<Rightarrow> string \<Rightarrow> int \<Rightarrow> listBucketResults
     \<Rightarrow> 't world \<Rightarrow> tries_exit \<times> 't world" where
  "GetBucket_tries lib c bucket marker fetchN url try bres w =
     (if try \<le> maxTries then
        (let w1 = Sleep ((try - 1) * 100) w in
         case newReq lib url of
           Panics perr \<Rightarrow> (NewReqPanic perr, w1)
         | Returns req \<Rightarrow>
             (case RoundTrip (transport lib c) req w1 of
                (Inl err, w2) \<Rightarrow>
                  if try < maxTries
                  then GetBucket_tries lib c bucket marker fetchN url (try + 1) bres w2
                  else (ReturnErr err, w2)
              | (Inr res, w2) \<Rightarrow>
                  if StatusCode res \<noteq> 200 then
                    (if StatusCode res < 500 then
                       (ReturnErr (MinioError (parseXML lib
                          \<lparr>Op = ''ListBucket'', Code = StatusCode res,
                           ErrBody = take (2 ^ 20) (Body res), ErrHeader = Header res,
                           UseEndpoint = '''', MinioCode = ''''\<rparr>)), w2)
                     else (LoopLeft bres, w2))
                  else
                    (let d = Decode_listBucketResults lib (Body res);
                         bres' = decoded d;
                         err = (case decodeErr d of
                                  Some derr \<Rightarrow> Some derr
                                | None \<Rightarrow>
                                    if MaxKeys bres' \<noteq> fetchN \<or> Name bres' \<noteq> bucket
                                       \<or> Marker bres' \<noteq> marker
                                    then Some (Errorf ''Unexpected parse from server: %#v from: %s''
                                                 [ArgBres bres', ArgStr (teed d)])
                                    else None)
                     in case err of
                          Some e \<Rightarrow>
                            if try < maxTries - 1
                            then GetBucket_tries lib c bucket marker fetchN url (try + 1) bres' w2
                            else (ReturnErr e, w2)
                        | None \<Rightarrow> (LoopLeft bres', w2))))
      else (LoopLeft bres, w))"
  by pat_completeness auto
termination
  by (relation "measure (\<lambda>(lib, c, bucket, marker, fetchN, url, try, bres, w). nat (maxTries + 1 - try))")
     auto

declare GetBucket_tries.simps [simp del]

text \<open>The loop \<^verbatim>\<open>for _, it := range bres.Contents\<close>: it either makes \<^verbatim>\<open>GetBucket\<close> return
  an error or ends with the new \<^verbatim>\<open>items\<close> and \<^verbatim>\<open>marker\<close>.\<close>

fun GetBucket_range :: "string \<Rightarrow> Item list \<Rightarrow> Item list \<Rightarrow> string \<Rightarrow> error + Item list \<times> string" where
  "GetBucket_range startAt [] items marker = Inr (items, marker)"
| "GetBucket_range startAt (it # rest) items marker =
     (if Key it = marker \<and> Key it \<noteq> startAt then GetBucket_range startAt rest items marker
      else if Key it < startAt then
        Inl (Errorf ''Unexpected response from Minio: item key %q but wanted greater than %q''
               [ArgStr (Key it), ArgStr startAt])
      else GetBucket_range startAt rest (items @ [it]) (Key it))"

definition GetBucket_url :: "'t stdlib \<Rightarrow> 't Client \<Rightarrow> string \<Rightarrow> string \<Rightarrow> int \<Rightarrow> string" where
  "GetBucket_url lib c bucket marker fetchN =
     bucketURL c bucket @ ''?marker='' @ QueryEscape lib marker @ ''&max-keys='' @ itoa fetchN"

definition GetBucket_fetchN :: "int \<Rightarrow> Item list \<Rightarrow> int" where
  "GetBucket_fetchN maxKeys items =
     (if maxKeys - int (length items) > MAX_OBJECT_LIST then MAX_OBJECT_LIST
      else maxKeys - int (length items))"

text \<open>
  The outer loop \<^verbatim>\<open>for len(items) < maxKeys\<close>, entered with the current \<^verbatim>\<open>items\<close> and
  \<^verbatim>\<open>marker\<close>. Nothing bounds the number of pages (a server may answer every request with
  an empty truncated page), so the loop is a partial function: \<open>None\<close> is a call that
  never returns. A returned pair is the pair \<^verbatim>\<open>(items, err)\<close> of the Go function, the nil
  slice being \<open>[]\<close>.
\<close>

partial_function (option) GetBucket_pages ::
  "'t stdlib \<Rightarrow> 't Client \<Rightarrow> string \<Rightarrow> string \<Rightarrow> int \<Rightarrow> Item list \<Rightarrow> string \<Rightarrow> 't world
     \<Rightarrow> ((Item list \<times> error option) outcome \<times> 't world) option" where
  "GetBucket_pages lib c bucket startAt maxKeys items marker w =
     (if int (length items) < maxKeys then
        (case GetBucket_tries lib c bucket marker (GetBucket_fetchN maxKeys items)
                (GetBucket_url lib c bucket marker (GetBucket_fetchN maxKeys items))
                1 listBucketResults_zero w of
           (NewReqPanic perr, w') \<Rightarrow> Some (Panics perr, w')
         | (ReturnErr err, w') \<Rightarrow> Some (Returns ([], Some err), w')
         | (LoopLeft bres, w') \<Rightarrow>
             (case GetBucket_range startAt (Contents bres) items marker of
                Inl err \<Rightarrow> Some (Returns ([], Some err), w')
              | Inr (items', marker') \<Rightarrow>
                  if \<not> IsTruncated bres then Some (Returns (items', None), w')
                  else GetBucket_pages lib c bucket startAt maxKeys items' marker' w'))
      else Some (Returns (items, None), w))"

declare GetBucket_pages.simps [code]

definition GetBucket ::
  "'t stdlib \<Rightarrow> 't Client \<Rightarrow> string \<Rightarrow> string \<Rightarrow> int \<Rightarrow> 't world
     \<Rightarrow> ((Item list \<times> error option) outcome \<times> 't world) option" where
  "GetBucket lib c bucket startAt maxKeys w =
     (if maxKeys < 0 then Some (Returns ([], Some (ErrorsNew ''invalid negative maxKeys'')), w)
      else GetBucket_pages lib c bucket startAt maxKeys [] startAt w)"

subsection \<open>The states of the page loop\<close>

text \<open>
  \<open>GetBucket_reaches lib c bucket startAt maxKeys w0 items marker w\<close>: the call
  \<^verbatim>\<open>GetBucket(bucket, startAt, maxKeys)\<close> started in world \<open>w0\<close> arrives at the head of
  its page loop with these \<^verbatim>\<open>items\<close> and \<^verbatim>\<open>marker\<close>, in world \<open>w\<close>.
\<close>

inductive GetBucket_reaches ::
  "'t stdlib \<Rightarrow> 't Client \<Rightarrow> string \<Rightarrow> string \<Rightarrow> int \<Rightarrow> 't world \<Rightarrow> Item list \<Rightarrow> string \<Rightarrow> 't world \<Rightarrow> bool"
  for lib c bucket startAt maxKeys w0 where
    first_page: "GetBucket_reaches lib c bucket startAt maxKeys w0 [] startAt w0"
  | next_page:
      "GetBucket_reaches lib c bucket startAt maxKeys w0 items marker w \<Longrightarrow>
       int (length items) < maxKeys \<Longrightarrow>
       GetBucket_tries lib c bucket marker (GetBucket_fetchN maxKeys items)
         (GetBucket_url lib c bucket marker (GetBucket_fetchN maxKeys items))
         1 listBucketResults_zero w = (LoopLeft bres, w') \<Longrightarrow>
       GetBucket_range startAt (Contents bres) items marker = Inr (items', marker') \<Longrightarrow>
       IsTruncated bres \<Longrightarrow>
       GetBucket_reaches lib c bucket startAt maxKeys w0 items' marker' w'"

text \<open>What holds of \<^verbatim>\<open>items\<close> and \<^verbatim>\<open>marker\<close> whenever the page loop is entered: no key lies
  before the start key, the marker is the key of the last item once there is one, and an
  item repeats the key of the item before it only if that key is the start key.\<close>

definition listed :: "string \<Rightarrow> Item list \<Rightarrow> string \<Rightarrow> bool" where
  "listed startAt items marker \<longleftrightarrow>
     (\<forall>it \<in> set items. startAt \<le> Key it) \<and>
     (items \<noteq> [] \<longrightarrow> marker = Key (last items)) \<and>
     successively (\<lambda>a b. Key b = Key a \<longrightarrow> Key a = startAt) items"



text \<open>Between the worlds \<open>w\<close> and \<open>w'\<close> requests have been sent to URLs in \<open>U\<close> only.\<close>

definition sends_only :: "'t world \<Rightarrow> 't world \<Rightarrow> string set \<Rightarrow> bool" where
  "sends_only w w' U \<longleftrightarrow> (\<exists>rs. requests w' = requests w @ rs \<and> URL ` set rs \<subseteq> U)"

subsection \<open>The operations of a single round trip\<close>

definition Buckets_url :: "'t Client \<Rightarrow> string" where
  "Buckets_url c = ''http://'' @ hostname c @ ''/''"

definition parseListAllMyBuckets :: "'t stdlib \<Rightarrow> string \<Rightarrow> Bucket list \<times> error option" where
  "parseListAllMyBuckets lib r =
     (case Decode_allMyBuckets lib r of
        (bs, Some err) \<Rightarrow> ([], Some err)
      | (bs, None) \<Rightarrow> (bs, None))"

definition Buckets :: "'t stdlib \<Rightarrow> 't Client \<Rightarrow> 't world \<Rightarrow> (Bucket list \<times> error option) outcome \<times> 't world" where
  "Buckets lib c w =
     (case newReq lib (Buckets_url c) of
        Panics perr \<Rightarrow> (Panics perr, w)
      | Returns req \<Rightarrow>
          (case RoundTrip (transport lib c) req w of
             (Inl err, w') \<Rightarrow> (Returns ([], Some err), w')
           | (Inr res, w') \<Rightarrow>
               if StatusCode res \<noteq> 200 then
                 (Returns ([], Some (Errorf ''minio: Unexpected status code %d fetching bucket list''
                                      [ArgInt (StatusCode res)])), w')
               else (Returns (parseListAllMyBuckets lib (Body res)), w')))"

text \<open>\<^verbatim>\<open>Stat(key, bucket)\<close> returns the pair \<^verbatim>\<open>(size, reterr)\<close>.\<close>

definition Stat :: "'t stdlib \<Rightarrow> 't Client \<Rightarrow> string \<Rightarrow> string \<Rightarrow> 't world \<Rightarrow> (64 word \<times> error option) outcome \<times> 't world" where
  "Stat lib c key bucket w =
     (case newReq lib (keyURL c bucket key) of
        Panics perr \<Rightarrow> (Panics perr, w)
      | Returns req \<Rightarrow>
          (case RoundTrip (transport lib c) (req\<lparr>Method := ''HEAD''\<rparr>) w of
             (Inl err, w') \<Rightarrow> (Returns (0, Some err), w')
           | (Inr res, w') \<Rightarrow>
               if StatusCode res = 404 then (Returns (0, Some ErrNotExist), w')
               else if StatusCode res = 200 then
                 (Returns (ParseInt lib (Header_Get (Header res) ''Content-Length'')), w')
               else
                 (Returns (0, Some (Errorf ''minio: Unexpected status code %d statting object %v''
                                      [ArgInt (StatusCode res), ArgStr key])), w')))"

definition PutBucket :: "'t stdlib \<Rightarrow> 't Client \<Rightarrow> string \<Rightarrow> 't world \<Rightarrow> error option outcome \<times> 't world" where
  "PutBucket lib c bucket w =
     (case newReq lib (bucketURL c bucket) of
        Panics perr \<Rightarrow> (Panics perr, w)
      | Returns req \<Rightarrow>
          (case RoundTrip (transport lib c) (req\<lparr>Method := ''PUT''\<rparr>) w of
             (Inl err, w') \<Rightarrow> (Returns (Some err), w')
           | (Inr res, w') \<Rightarrow>
               if StatusCode res \<noteq> 200 then
                 (Returns (Some (Errorf ''Got response code %d from minio'' [ArgInt (StatusCode res)])), w')
               else (Returns None, w')))"

text \<open>In \<^verbatim>\<open>Put\<close> the argument \<open>md5\<close> is \<open>None\<close> for a nil hash and otherwise the digest
  \<^verbatim>\<open>md5.Sum(nil)\<close> of the hash; \<open>sz\<close> is \<^verbatim>\<open>size\<close> and \<open>body\<close> is the content of the
  reader.\<close>

definition Put ::
  "'t stdlib \<Rightarrow> 't Client \<Rightarrow> string \<Rightarrow> string \<Rightarrow> string option \<Rightarrow> 64 word \<Rightarrow> string \<Rightarrow> 't world
     \<Rightarrow> error option outcome \<times> 't world" where
  "Put lib c bucket key md5 sz body w =
     (case newReq lib (keyURL c bucket key) of
        Panics perr \<Rightarrow> (Panics perr, w)
      | Returns req \<Rightarrow>
          (let req1 = req\<lparr>Method := ''PUT'', ReqContentLength := sz\<rparr>;
               req2 = (case md5 of
                         Some digest \<Rightarrow> req1\<lparr>ReqHeader := Header_Set (ReqHeader req1) ''Content-MD5'' (Base64 lib digest)\<rparr>
                       | None \<Rightarrow> req1);
               req3 = req2\<lparr>ReqBody := Some body\<rparr>
           in case RoundTrip (transport lib c) req3 w of
                (Inl err, w') \<Rightarrow> (Returns (Some err), w')
              | (Inr res, w') \<Rightarrow>
                  if StatusCode res \<noteq> 200 then
                    (Returns (Some (Errorf ''Got response code %d from minio'' [ArgInt (StatusCode res)])), w')
                  else (Returns None, w')))"

definition BucketLocation_url :: "'t stdlib \<Rightarrow> string \<Rightarrow> string \<Rightarrow> string" where
  "BucketLocation_url lib bucket hostname_arg =
     ''http://'' @ hostname_arg @ ''/'' @ QueryEscape lib bucket @ ''/?location''"

definition BucketLocation ::
  "'t stdlib \<Rightarrow> 't Client \<Rightarrow> string \<Rightarrow> string \<Rightarrow> 't world \<Rightarrow> (string \<times> error option) outcome \<times> 't world" where
  "BucketLocation lib c bucket hostname_arg w =
     (case newReq lib (BucketLocation_url lib bucket hostname_arg) of
        Panics perr \<Rightarrow> (Panics perr, w)
      | Returns req \<Rightarrow>
          (case RoundTrip (transport lib c) req w of
             (Inl err, w') \<Rightarrow> (Returns ('''', Some err), w')
           | (Inr res, w') \<Rightarrow>
               (case Decode_xmlLocationConstraint lib (Body res) of
                  (loc, Some err) \<Rightarrow> (Returns ('''', Some err), w')
                | (loc, None) \<Rightarrow>
                    if loc = '''' then (Returns (''localhost'', None), w')
                    else (Returns (''minio-'' @ loc @ ''.'' @ hostname_arg, None), w'))))"

text \<open>\<^verbatim>\<open>Get\<close> returns \<^verbatim>\<open>(body, size, err)\<close>; a nil body is \<open>None\<close>.\<close>

definition Get ::
  "'t stdlib \<Rightarrow> 't Client \<Rightarrow> string \<Rightarrow> string \<Rightarrow> 't world
     \<Rightarrow> (string option \<times> 64 word \<times> error option) outcome \<times> 't world" where
  "Get lib c bucket key w =
     (case newReq lib (keyURL c bucket key) of
        Panics perr \<Rightarrow> (Panics perr, w)
      | Returns req \<Rightarrow>
          (case RoundTrip (transport lib c) req w of
             (Inl err, w') \<Rightarrow> (Returns (None, 0, Some err), w')
           | (Inr res, w') \<Rightarrow>
               if StatusCode res = 200 then (Returns (Some (Body res), ContentLength res, None), w')
               else if StatusCode res = 404 then (Returns (None, 0, Some ErrNotExist), w')
               else (Returns (None, 0, Some (Errorf ''Minio HTTP error on GET: %d''
                                               [ArgInt (StatusCode res)])), w')))"

text \<open>The value of the \<^verbatim>\<open>Range\<close> header that \<^verbatim>\<open>GetPartial\<close> sets; \<^verbatim>\<open>offset+length-1\<close> is
  computed in \<^verbatim>\<open>int64\<close>.\<close>

definition GetPartial_range :: "64 word \<Rightarrow> 64 word \<Rightarrow> string" where
  "GetPartial_range offset len =
     (if 0 \<le> sint len
      then ''bytes='' @ itoa (sint offset) @ ''-'' @ itoa (sint (offset + len - 1))
      else ''bytes='' @ itoa (sint offset) @ ''-'')"

text \<open>\<^verbatim>\<open>GetPartial\<close> returns \<^verbatim>\<open>(rc, err)\<close>; a nil reader is \<open>None\<close>, and \<open>len\<close> is the
  argument \<^verbatim>\<open>length\<close>.\<close>

definition GetPartial ::
  "'t stdlib \<Rightarrow> 't Client \<Rightarrow> string \<Rightarrow> string \<Rightarrow> 64 word \<Rightarrow> 64 word \<Rightarrow> 't world
     \<Rightarrow> (string option \<times> error option) outcome \<times> 't world" where
  "GetPartial lib c bucket key offset len w =
     (if sint offset < 0 then (Returns (None, Some (ErrorsNew ''invalid negative length'')), w)
      else
        (case newReq lib (keyURL c bucket key) of
           Panics perr \<Rightarrow> (Panics perr, w)
         | Returns req \<Rightarrow>
             (case RoundTrip (transport lib c)
                     (req\<lparr>ReqHeader := Header_Set (ReqHeader req) ''Range'' (GetPartial_range offset len)\<rparr>) w of
                (Inl err, w') \<Rightarrow> (Returns (None, Some err), w')
              | (Inr res, w') \<Rightarrow>
                  if StatusCode res = 200 \<or> StatusCode res = 206 then (Returns (Some (Body res), None), w')
                  else if StatusCode res = 404 then (Returns (None, Some ErrNotExist), w')
                  else (Returns (None, Some (Errorf ''Minio HTTP error on GET: %d''
                                               [ArgInt (StatusCode res)])), w'))))"

subsection \<open>An environment for examples\<close>

text \<open>
  The examples run the client against a transport that replays a fixed list of outcomes,
  one per round trip, and fails once the list is used up. The state behind it is the list
  of outcomes still to come.
\<close>

definition replay :: "(error + Response) list RoundTripper" where
  "replay req s = (case s of [] \<Rightarrow> (Inl (Foreign ''EOF''), []) | r # rest \<Rightarrow> (r, rest))"

text \<open>\<^verbatim>\<open>url.QueryEscape\<close> as \<^verbatim>\<open>net/url\<close> documents it: letters, digits and \<^verbatim>\<open>-_.~\<close> stay, a
  space becomes \<^verbatim>\<open>+\<close>, every other byte becomes \<^verbatim>\<open>%XX\<close> in upper case hexadecimal.\<close>

definition escape_byte :: "char \<Rightarrow> string" where
  "escape_byte ch =
     (if ch \<in> set ''abcdefghijklmnopqrstuvwxyzABCDEFGHIJKLMNOPQRSTUVWXYZ0123456789-_.~'' then [ch]
      else if ch = CHR '' '' then ''+''
      else [CHR ''%'', ''0123456789ABCDEF'' ! (of_char ch div 16), ''0123456789ABCDEF'' ! (of_char ch mod 16)])"

definition go_QueryEscape :: "string \<Rightarrow> string" where
  "go_QueryEscape s = concat (map escape_byte s)"

text \<open>
  The example library: every URL is accepted, and a body decodes to the page listed for
  it in \<open>pages\<close> (echoing the body as the bytes read) and is a syntax error otherwise.
  The rest is as small as the examples allow: \<open>ParseInt\<close> reads the one numeral
  \<^verbatim>\<open>42\<close>, an error body decodes to an empty \<^verbatim>\<open>xmlError\<close>, the two other decoders
  accept nothing and \<open>Base64\<close> leaves its argument as it is.
\<close>

definition example_decode :: "(string \<times> listBucketResults) list \<Rightarrow> string \<Rightarrow> ListDecode" where
  "example_decode pages body =
     (case map_of pages body of
        Some p \<Rightarrow> \<lparr>decoded = p, decodeErr = None, teed = body\<rparr>
      | None \<Rightarrow> \<lparr>decoded = listBucketResults_zero, decodeErr = Some (Foreign ''XML syntax error''), teed = body\<rparr>)"

definition example_lib :: "(string \<times> listBucketResults) list \<Rightarrow> (error + Response) list stdlib" where
  "example_lib pages =
     \<lparr>DefaultTransport = replay,
      NewRequest_err = (\<lambda>u. None),
      QueryEscape = go_QueryEscape,
      ParseInt = (\<lambda>s. if s = ''42'' then (42, None) else (0, Some (Foreign ''strconv.ParseInt: invalid syntax''))),
      Decode_listBucketResults = example_decode pages,
      Decode_xmlError = (\<lambda>b. \<lparr>xCode = '''', xMessage = '''', xRequestId = '''', xBucket = '''',
                               xEndpoint = '''', xStringToSignBytes = ''''\<rparr>),
      Decode_allMyBuckets = (\<lambda>b. ([], Some (Foreign ''EOF''))),
      Decode_xmlLocationConstraint = (\<lambda>b. ('''', Some (Foreign ''EOF''))),
      Base64 = (\<lambda>s. s)\<rparr>"

definition example_client :: "(error + Response) list Client" where
  "example_client = \<lparr>Hostname = '''', Transport = None\<rparr>"

definition start :: "(error + Response) list \<Rightarrow> (error + Response) list world" where
  "start script = \<lparr>net = script, requests = [], slept = []\<rparr>"

definition response :: "int \<Rightarrow> string \<Rightarrow> error + Response" where
  "response code body = Inr \<lparr>StatusCode = code, Header = Map.empty, Body = body, ContentLength = 0\<rparr>"

definition item :: "string \<Rightarrow> Item" where
  "item k = \<lparr>Key = k, LastModified = '''', Size = 0\<rparr>"

text \<open>A client whose transport answers every request with the body \<^verbatim>\<open>p\<close>.\<close>

definition tireless_client :: "(error + Response) list Client" where
  "tireless_client = \<lparr>Hostname = '''', Transport = Some (\<lambda>req s. (response 200 ''p'', s))\<rparr>"

text \<open>A page as the server sends it for the request \<open>marker\<close>, \<open>max-keys\<close> on \<open>bucket\<close>.\<close>

definition example_page :: "string \<Rightarrow> string \<Rightarrow> int \<Rightarrow> string list \<Rightarrow> bool \<Rightarrow> listBucketResults" where
  "example_page bucket marker n keys truncated =
     \<lparr>Contents = map item keys, IsTruncated = truncated, MaxKeys = n, Name = bucket, Marker = marker\<rparr>"

lemmas example_defs =
  GetBucket_def GetBucket_pages.simps GetBucket_tries.simps GetBucket_fetchN_def GetBucket_url_def
  MAX_OBJECT_LIST_def maxTries_def newReq_def RoundTrip_def transport_def Sleep_def
  bucketURL_def keyURL_def hostname_def
  example_lib_def example_client_def example_decode_def replay_def start_def response_def
  listBucketResults_zero_def item_def example_page_def

section \<open>Properties\<close>

subsection \<open>Reasoning about the two loops\<close>

text \<open>
  Induction over a call of the page loop that returns, with one case for each way an
  iteration can go: the budget \<^verbatim>\<open>maxKeys\<close> is used up, \<^verbatim>\<open>newReq\<close> panics, the retry loop
  returns an error, an item of the page lies before the start key, the page is the last
  one, or the loop goes on to the next page.
\<close>

lemma GetBucket_pages_induct [consumes 1, case_names full panic failed key last more]:
  assumes run: "GetBucket_pages lib c bucket startAt maxKeys items marker w = Some y"
    and full: "\<And>lib c bucket startAt maxKeys items marker w.
      \<not> int (length items) < maxKeys \<Longrightarrow>
      P lib c bucket startAt maxKeys items marker w (Returns (items, None), w)"
    and panic: "\<And>lib c bucket startAt maxKeys items marker w perr w'.
      int (length items) < maxKeys \<Longrightarrow>
      GetBucket_tries lib c bucket marker (GetBucket_fetchN maxKeys items)
        (GetBucket_url lib c bucket marker (GetBucket_fetchN maxKeys items))
        1 listBucketResults_zero w = (NewReqPanic perr, w') \<Longrightarrow>
      P lib c bucket startAt maxKeys items marker w (Panics perr, w')"
    and failed: "\<And>lib c bucket startAt maxKeys items marker w err w'.
      int (length items) < maxKeys \<Longrightarrow>
      GetBucket_tries lib c bucket marker (GetBucket_fetchN maxKeys items)
        (GetBucket_url lib c bucket marker (GetBucket_fetchN maxKeys items))
        1 listBucketResults_zero w = (ReturnErr err, w') \<Longrightarrow>
      P lib c bucket startAt maxKeys items marker w (Returns ([], Some err), w')"
    and key: "\<And>lib c bucket startAt maxKeys items marker w bres w' err.
      int (length items) < maxKeys \<Longrightarrow>
      GetBucket_tries lib c bucket marker (GetBucket_fetchN maxKeys items)
        (GetBucket_url lib c bucket marker (GetBucket_fetchN maxKeys items))
        1 listBucketResults_zero w = (LoopLeft bres, w') \<Longrightarrow>
      GetBucket_range startAt (Contents bres) items marker = Inl err \<Longrightarrow>
      P lib c bucket startAt maxKeys items marker w (Returns ([], Some err), w')"
    and last: "\<And>lib c bucket startAt maxKeys items marker w bres w' items' marker'.
      int (length items) < maxKeys \<Longrightarrow>
      GetBucket_tries lib c bucket marker (GetBucket_fetchN maxKeys items)
        (GetBucket_url lib c bucket marker (GetBucket_fetchN maxKeys items))
        1 listBucketResults_zero w = (LoopLeft bres, w') \<Longrightarrow>
      GetBucket_range startAt (Contents bres) items marker = Inr (items', marker') \<Longrightarrow>
      \<not> IsTruncated bres \<Longrightarrow>
      P lib c bucket startAt maxKeys items marker w (Returns (items', None), w')"
    and more: "\<And>lib c bucket startAt maxKeys items marker w bres w' items' marker' y.
      int (length items) < maxKeys \<Longrightarrow>
      GetBucket_tries lib c bucket marker (GetBucket_fetchN maxKeys items)
        (GetBucket_url lib c bucket marker (GetBucket_fetchN maxKeys items))
        1 listBucketResults_zero w = (LoopLeft bres, w') \<Longrightarrow>
      GetBucket_range startAt (Contents bres) items marker = Inr (items', marker') \<Longrightarrow>
      IsTruncated bres \<Longrightarrow>
      P lib c bucket startAt maxKeys items' marker' w' y \<Longrightarrow>
      P lib c bucket startAt maxKeys items marker w y"
  shows "P lib c bucket startAt maxKeys items marker w y"
proof (rule GetBucket_pages.raw_induct[where P = P, OF _ run])
  fix pages lib c bucket startAt maxKeys items marker w y
  assume IH: "\<And>lib c bucket startAt maxKeys items marker w y.
            pages lib c bucket startAt maxKeys items marker w = Some y \<Longrightarrow>
            P lib c bucket startAt maxKeys items marker w y"
  assume body: "(if int (length items) < maxKeys then
        (case GetBucket_tries lib c bucket marker (GetBucket_fetchN maxKeys items)
                (GetBucket_url lib c bucket marker (GetBucket_fetchN maxKeys items))
                1 listBucketResults_zero w of
           (NewReqPanic perr, w') \<Rightarrow> Some (Panics perr, w')
         | (ReturnErr err, w') \<Rightarrow> Some (Returns ([], Some err), w')
         | (LoopLeft bres, w') \<Rightarrow>
             (case GetBucket_range startAt (Contents bres) items marker of
                Inl err \<Rightarrow> Some (Returns ([], Some err), w')
              | Inr (items', marker') \<Rightarrow>
                  if \<not> IsTruncated bres then Some (Returns (items', None), w')
                  else pages lib c bucket startAt maxKeys items' marker' w'))
      else Some (Returns (items, None), w)) = Some y"
  show "P lib c bucket startAt maxKeys items marker w y"
  proof (cases "int (length items) < maxKeys")
    case False
    with body have "y = (Returns (items, None), w)" by simp
    with full[OF False] show ?thesis by simp
  next
    case True
    obtain ex w' where t: "GetBucket_tries lib c bucket marker (GetBucket_fetchN maxKeys items)
        (GetBucket_url lib c bucket marker (GetBucket_fetchN maxKeys items))
        1 listBucketResults_zero w = (ex, w')"
      by (cases "GetBucket_tries lib c bucket marker (GetBucket_fetchN maxKeys items)
        (GetBucket_url lib c bucket marker (GetBucket_fetchN maxKeys items))
        1 listBucketResults_zero w")
    show ?thesis
    proof (cases ex)
      case (ReturnErr err)
      with body True t have "y = (Returns ([], Some err), w')" by simp
      with failed[OF True t[unfolded ReturnErr]] show ?thesis by simp
    next
      case (NewReqPanic perr)
      with body True t have "y = (Panics perr, w')" by simp
      with panic[OF True t[unfolded NewReqPanic]] show ?thesis by simp
    next
      case (LoopLeft bres)
      note t' = t[unfolded LoopLeft]
      show ?thesis
      proof (cases "GetBucket_range startAt (Contents bres) items marker")
        case (Inl err)
        with body True t' have "y = (Returns ([], Some err), w')" by simp
        with key[OF True t' Inl] show ?thesis by simp
      next
        case (Inr p)
        obtain items' marker' where p: "p = (items', marker')" by (cases p)
        note r = Inr[unfolded p]
        show ?thesis
        proof (cases "IsTruncated bres")
          case False
          with body True t' r have "y = (Returns (items', None), w')" by simp
          with last[OF True t' r False] show ?thesis by simp
        next
          case tr: True
          with body True t' r have "pages lib c bucket startAt maxKeys items' marker' w' = Some y" by simp
          from more[OF True t' r tr IH[OF this]] show ?thesis .
        qed
      qed
    qed
  qed
qed

text \<open>
  The same for the retry loop of one page, entered at any attempt: the attempts are used
  up, \<^verbatim>\<open>newReq\<close> panics, the round trip fails and is tried again or not, the status is below
  500, the status is 500 or more, the page does not decode or does not match the request
  and is tried again or not, or the page is accepted.
\<close>

lemma GetBucket_tries_cases [case_names past panic again gave_up client_error server_error invalid_again invalid valid]:
  assumes past: "\<And>try bres w. \<not> try \<le> maxTries \<Longrightarrow> P try bres w (LoopLeft bres, w)"
    and panic: "\<And>try bres w perr. try \<le> maxTries \<Longrightarrow> newReq lib url = Panics perr \<Longrightarrow>
      P try bres w (NewReqPanic perr, Sleep ((try - 1) * 100) w)"
    and again: "\<And>try bres w req err w2. try \<le> maxTries \<Longrightarrow> newReq lib url = Returns req \<Longrightarrow>
      RoundTrip (transport lib c) req (Sleep ((try - 1) * 100) w) = (Inl err, w2) \<Longrightarrow>
      try < maxTries \<Longrightarrow>
      P (try + 1) bres w2 (GetBucket_tries lib c bucket marker fetchN url (try + 1) bres w2) \<Longrightarrow>
      P try bres w (GetBucket_tries lib c bucket marker fetchN url (try + 1) bres w2)"
    and gave_up: "\<And>try bres w req err w2. try \<le> maxTries \<Longrightarrow> newReq lib url = Returns req \<Longrightarrow>
      RoundTrip (transport lib c) req (Sleep ((try - 1) * 100) w) = (Inl err, w2) \<Longrightarrow>
      \<not> try < maxTries \<Longrightarrow>
      P try bres w (ReturnErr err, w2)"
    and client_error: "\<And>try bres w req res w2 e. try \<le> maxTries \<Longrightarrow> newReq lib url = Returns req \<Longrightarrow>
      RoundTrip (transport lib c) req (Sleep ((try - 1) * 100) w) = (Inr res, w2) \<Longrightarrow>
      StatusCode res \<noteq> 200 \<Longrightarrow> StatusCode res < 500 \<Longrightarrow>
      P try bres w (ReturnErr (MinioError e), w2)"
    and server_error: "\<And>try bres w req res w2. try \<le> maxTries \<Longrightarrow> newReq lib url = Returns req \<Longrightarrow>
      RoundTrip (transport lib c) req (Sleep ((try - 1) * 100) w) = (Inr res, w2) \<Longrightarrow>
      StatusCode res \<noteq> 200 \<Longrightarrow> \<not> StatusCode res < 500 \<Longrightarrow>
      P try bres w (LoopLeft bres, w2)"
    and invalid_again: "\<And>try bres w req res w2 bres'. try \<le> maxTries \<Longrightarrow> newReq lib url = Returns req \<Longrightarrow>
      RoundTrip (transport lib c) req (Sleep ((try - 1) * 100) w) = (Inr res, w2) \<Longrightarrow>
      StatusCode res = 200 \<Longrightarrow> try < maxTries - 1 \<Longrightarrow>
      P (try + 1) bres' w2 (GetBucket_tries lib c bucket marker fetchN url (try + 1) bres' w2) \<Longrightarrow>
      P try bres w (GetBucket_tries lib c bucket marker fetchN url (try + 1) bres' w2)"
    and invalid: "\<And>try bres w req res w2 e. try \<le> maxTries \<Longrightarrow> newReq lib url = Returns req \<Longrightarrow>
      RoundTrip (transport lib c) req (Sleep ((try - 1) * 100) w) = (Inr res, w2) \<Longrightarrow>
      StatusCode res = 200 \<Longrightarrow> \<not> try < maxTries - 1 \<Longrightarrow>
      P try bres w (ReturnErr e, w2)"
    and valid: "\<And>try bres w req res w2 bres'. try \<le> maxTries \<Longrightarrow> newReq lib url = Returns req \<Longrightarrow>
      RoundTrip (transport lib c) req (Sleep ((try - 1) * 100) w) = (Inr res, w2) \<Longrightarrow>
      StatusCode res = 200 \<Longrightarrow>
      P try bres w (LoopLeft bres', w2)"
  shows "P try bres w (GetBucket_tries lib c bucket marker fetchN url try bres w)"
proof (induction "nat (maxTries + 1 - try)" arbitrary: "try" bres w rule: less_induct)
  case less
  define att where "att = try"
  note IH = less[folded att_def]
  have "P att bres w (GetBucket_tries lib c bucket marker fetchN url att bres w)"
  proof (cases "att \<le> maxTries")
    case False
    then have eq: "GetBucket_tries lib c bucket marker fetchN url att bres w = (LoopLeft bres, w)"
      by (subst GetBucket_tries.simps) simp
    show ?thesis unfolding eq by (rule past[OF False])
  next
    case le: True
    show ?thesis
    proof (cases "newReq lib url")
      case (Panics perr)
      with le have eq: "GetBucket_tries lib c bucket marker fetchN url att bres w =
          (NewReqPanic perr, Sleep ((att - 1) * 100) w)"
        by (subst GetBucket_tries.simps) simp
      show ?thesis unfolding eq by (rule panic[OF le Panics])
    next
      case (Returns req)
      obtain r w2 where rt: "RoundTrip (transport lib c) req (Sleep ((att - 1) * 100) w) = (r, w2)"
        by (cases "RoundTrip (transport lib c) req (Sleep ((att - 1) * 100) w)")
      from le have dec: "nat (maxTries + 1 - (att + 1)) < nat (maxTries + 1 - att)" by simp
      show ?thesis
      proof (cases r)
        case (Inl err)
        note rt' = rt[unfolded Inl]
        show ?thesis
        proof (cases "att < maxTries")
          case True
          with le Returns rt' have eq: "GetBucket_tries lib c bucket marker fetchN url att bres w =
              GetBucket_tries lib c bucket marker fetchN url (att + 1) bres w2"
            by (subst GetBucket_tries.simps) simp
          show ?thesis unfolding eq by (rule again[OF le Returns rt' True IH[OF dec]])
        next
          case False
          with le Returns rt' have eq: "GetBucket_tries lib c bucket marker fetchN url att bres w =
              (ReturnErr err, w2)"
            by (subst GetBucket_tries.simps) simp
          show ?thesis unfolding eq by (rule gave_up[OF le Returns rt' False])
        qed
      next
        case (Inr res)
        note rt' = rt[unfolded Inr]
        show ?thesis
        proof (cases "StatusCode res \<noteq> 200")
          case True
          show ?thesis
          proof (cases "StatusCode res < 500")
            case lt: True
            with le Returns rt' True have eq: "\<exists>e. GetBucket_tries lib c bucket marker fetchN url att bres w =
                (ReturnErr (MinioError e), w2)"
              by (subst GetBucket_tries.simps) simp
            then obtain e where eq: "GetBucket_tries lib c bucket marker fetchN url att bres w =
                (ReturnErr (MinioError e), w2)" ..
            show ?thesis unfolding eq by (rule client_error[OF le Returns rt' True lt])
          next
            case ge: False
            with le Returns rt' True have eq: "GetBucket_tries lib c bucket marker fetchN url att bres w =
                (LoopLeft bres, w2)"
              by (subst GetBucket_tries.simps) simp
            show ?thesis unfolding eq by (rule server_error[OF le Returns rt' True ge])
          qed
        next
          case False
          then have ok: "StatusCode res = 200" by simp
          define d where "d = Decode_listBucketResults lib (Body res)"
          define err where "err = (case decodeErr d of
                                  Some derr \<Rightarrow> Some derr
                                | None \<Rightarrow>
                                    if MaxKeys (decoded d) \<noteq> fetchN \<or> Name (decoded d) \<noteq> bucket
                                       \<or> Marker (decoded d) \<noteq> marker
                                    then Some (Errorf ''Unexpected parse from server: %#v from: %s''
                                                 [ArgBres (decoded d), ArgStr (teed d)])
                                    else None)"
          show ?thesis
          proof (cases "err")
            case None
            with le Returns rt' ok have eq: "GetBucket_tries lib c bucket marker fetchN url att bres w =
                (LoopLeft (decoded d), w2)"
              by (subst GetBucket_tries.simps) (simp add: d_def[symmetric] err_def[symmetric] Let_def)
            show ?thesis unfolding eq by (rule valid[OF le Returns rt' ok])
          next
            case (Some e)
            show ?thesis
            proof (cases "att < maxTries - 1")
              case True
              with le Returns rt' ok Some have eq: "GetBucket_tries lib c bucket marker fetchN url att bres w =
                  GetBucket_tries lib c bucket marker fetchN url (att + 1) (decoded d) w2"
                by (subst GetBucket_tries.simps) (simp add: d_def[symmetric] err_def[symmetric] Let_def)
              show ?thesis unfolding eq by (rule invalid_again[OF le Returns rt' ok True IH[OF dec]])
            next
              case nt: False
              with le Returns rt' ok Some have eq: "GetBucket_tries lib c bucket marker fetchN url att bres w =
                  (ReturnErr e, w2)"
                by (subst GetBucket_tries.simps) (simp add: d_def[symmetric] err_def[symmetric] Let_def)
              show ?thesis unfolding eq by (rule invalid[OF le Returns rt' ok nt])
            qed
          qed
        qed
      qed
    qed
  qed
  then show ?case by (simp add: att_def)
qed

text \<open>The loop over a page keeps the invariant, and so does the page loop.\<close>

lemma GetBucket_range_ge:
  "GetBucket_range startAt page items marker = Inr (items', marker') \<Longrightarrow>
   \<forall>it \<in> set items. startAt \<le> Key it \<Longrightarrow> \<forall>it \<in> set items'. startAt \<le> Key it"
proof (induction page arbitrary: items marker)
  case Nil
  then show ?case by simp
next
  case (Cons it rest)
  show ?case
  proof (cases "Key it = marker \<and> Key it \<noteq> startAt")
    case True
    with Cons.prems(1) have "GetBucket_range startAt rest items marker = Inr (items', marker')"
      by (simp split: if_splits)
    from Cons.IH[OF this Cons.prems(2)] show ?thesis .
  next
    case False
    with Cons.prems(1) have ge: "\<not> Key it < startAt"
      and rec: "GetBucket_range startAt rest (items @ [it]) (Key it) = Inr (items', marker')"
      by (simp_all split: if_splits)
    from ge have "startAt \<le> Key it" by (rule leI)
    with Cons.prems(2) have "\<forall>x \<in> set (items @ [it]). startAt \<le> Key x" by simp
    from Cons.IH[OF rec this] show ?thesis .
  qed
qed

lemma GetBucket_range_last:
  "GetBucket_range startAt page items marker = Inr (items', marker') \<Longrightarrow>
   items \<noteq> [] \<longrightarrow> marker = Key (last items) \<Longrightarrow> items' \<noteq> [] \<longrightarrow> marker' = Key (last items')"
  by (induction page arbitrary: items marker) (auto split: if_splits)

lemma successively_snoc:
  "successively P (xs @ [x]) \<longleftrightarrow> successively P xs \<and> (xs \<noteq> [] \<longrightarrow> P (last xs) x)"
  by (cases xs rule: rev_cases) (auto simp: successively_append_iff)

lemma GetBucket_range_successively:
  "GetBucket_range startAt page items marker = Inr (items', marker') \<Longrightarrow>
   items \<noteq> [] \<longrightarrow> marker = Key (last items) \<Longrightarrow>
   successively (\<lambda>a b. Key b = Key a \<longrightarrow> Key a = startAt) items \<Longrightarrow>
   successively (\<lambda>a b. Key b = Key a \<longrightarrow> Key a = startAt) items'"
proof (induction page arbitrary: items marker)
  case Nil
  then show ?case by simp
next
  case (Cons it rest)
  show ?case
  proof (cases "Key it = marker \<and> Key it \<noteq> startAt")
    case True
    with Cons.prems(1) have "GetBucket_range startAt rest items marker = Inr (items', marker')"
      by (auto split: if_splits)
    from Cons.IH[OF this Cons.prems(2) Cons.prems(3)] show ?thesis .
  next
    case False
    with Cons.prems(1) have ge: "\<not> Key it < startAt"
      and rec: "GetBucket_range startAt rest (items @ [it]) (Key it) = Inr (items', marker')"
      by (auto split: if_splits)
    have "successively (\<lambda>a b. Key b = Key a \<longrightarrow> Key a = startAt) (items @ [it])"
      using Cons.prems(2,3) False by (auto simp: successively_snoc)
    from Cons.IH[OF rec _ this] show ?thesis by simp
  qed
qed

lemma GetBucket_range_listed:
  assumes r: "GetBucket_range startAt page items marker = Inr (items', marker')"
    and l: "listed startAt items marker"
  shows "listed startAt items' marker'"
proof -
  from l have a: "\<forall>it \<in> set items. startAt \<le> Key it"
    and b: "items \<noteq> [] \<longrightarrow> marker = Key (last items)"
    and s: "successively (\<lambda>a b. Key b = Key a \<longrightarrow> Key a = startAt) items"
    unfolding listed_def by simp_all
  from GetBucket_range_ge[OF r a] GetBucket_range_last[OF r b]
    GetBucket_range_successively[OF r b s]
  show ?thesis unfolding listed_def by simp
qed

lemma GetBucket_pages_atomic:
  assumes "GetBucket_pages lib c bucket startAt maxKeys items marker w = Some y"
  shows "\<forall>its e w'. y = (Returns (its, Some e), w') \<longrightarrow> its = []"
  using assms
  by (induction rule: GetBucket_pages_induct) simp_all

lemma GetBucket_pages_listed:
  assumes "GetBucket_pages lib c bucket startAt maxKeys items marker w = Some y"
  shows "listed startAt items marker \<longrightarrow>
         (\<forall>its w'. y = (Returns (its, None), w') \<longrightarrow> (\<exists>m. listed startAt its m))"
  using assms
proof (induction rule: GetBucket_pages_induct)
  case (full lib c bucket startAt maxKeys items marker w)
  show ?case by auto
next
  case (last lib c bucket startAt maxKeys items marker w bres w' items' marker')
  from last(3) have "listed startAt items marker \<Longrightarrow> listed startAt items' marker'"
    by (rule GetBucket_range_listed)
  then show ?case by auto
next
  case (more lib c bucket startAt maxKeys items marker w bres w' items' marker' y)
  from more(3) have "listed startAt items marker \<Longrightarrow> listed startAt items' marker'"
    by (rule GetBucket_range_listed)
  with more(5) show ?case by simp
qed simp_all




subsection \<open>Validation of the arguments\<close>

text \<open>
  Claim C6. \<^verbatim>\<open>GetBucket\<close> called with a negative \<^verbatim>\<open>maxKeys\<close> and \<^verbatim>\<open>GetPartial\<close> called with a
  negative \<^verbatim>\<open>offset\<close> each return an input validation error and leave the world as it
  was: no request has been sent through the transport and nothing else has happened.
\<close>

theorem negative_arguments_rejected_before_io:
  "(maxKeys < 0 \<longrightarrow>
      GetBucket lib c bucket startAt maxKeys w =
        Some (Returns ([], Some (ErrorsNew ''invalid negative maxKeys'')), w)) \<and>
   (sint offset < 0 \<longrightarrow>
      GetPartial lib c bucket key offset len w =
        (Returns (None, Some (ErrorsNew ''invalid negative length'')), w))"
  by (simp add: GetBucket_def GetPartial_def)

theorem negative_arguments_rejected_before_io_witness:
  "(- 1 :: int) < 0 \<and> sint (- 1 :: 64 word) < 0 \<and>
   GetBucket (example_lib []) example_client ''bkt'' ''a'' (- 1) (start [response 200 ''p''])
     = Some (Returns ([], Some (ErrorsNew ''invalid negative maxKeys'')), start [response 200 ''p'']) \<and>
   requests (snd (GetPartial (example_lib []) example_client ''bkt'' ''k'' (- 1) 5 (start [response 200 ''p''])))
     = [] \<and>
   fst (GetPartial (example_lib []) example_client ''bkt'' ''k'' (- 1) 5 (start [response 200 ''p'']))
     = Returns (None, Some (ErrorsNew ''invalid negative length''))"
  using negative_arguments_rejected_before_io
          [of "- 1" "example_lib []" example_client "''bkt''" "''a''" "start [response 200 ''p'']"
              "- 1" "''k''" 5]
  by (simp add: start_def)

subsection \<open>The result of a listing\<close>

text \<open>
  Whenever \<^verbatim>\<open>GetBucket\<close> returns, either there is no error, and then every returned item
  has passed the check against the start key, or there is an error and the item sequence
  is nil, whatever earlier pages had contributed. (A call need not return: it can panic in
  \<^verbatim>\<open>newReq\<close> or go through pages for ever.)
\<close>

theorem GetBucket_error_returns_no_items:
  assumes "GetBucket lib c bucket startAt maxKeys w = Some (Returns (items, err), w')"
  shows "(err = None \<or> items = []) \<and> (err = None \<longrightarrow> (\<forall>it \<in> set items. startAt \<le> Key it))"
proof (cases "maxKeys < 0")
  case True
  with assms show ?thesis by (simp add: GetBucket_def)
next
  case False
  with assms have run: "GetBucket_pages lib c bucket startAt maxKeys [] startAt w = Some (Returns (items, err), w')"
    by (simp add: GetBucket_def)
  have l: "listed startAt [] startAt" by (simp add: listed_def)
  show ?thesis
  proof (cases err)
    case None
    with GetBucket_pages_listed[OF run] l obtain m where "listed startAt items m" by blast
    with None show ?thesis by (simp add: listed_def)
  next
    case (Some e)
    with GetBucket_pages_atomic[OF run] show ?thesis by simp
  qed
qed

theorem GetBucket_error_returns_no_items_witness:
  "\<exists>e w'. GetBucket (example_lib [(''p1'', example_page ''bkt'' ''a'' 10 [''a'', ''b''] True)])
            example_client ''bkt'' ''a'' 10 (start [response 200 ''p1'', response 404 ''gone''])
          = Some (Returns ([], Some e), w') \<and> length (requests w') = 2"
proof -
  have "\<exists>items e w'. GetBucket (example_lib [(''p1'', example_page ''bkt'' ''a'' 10 [''a'', ''b''] True)])
            example_client ''bkt'' ''a'' 10 (start [response 200 ''p1'', response 404 ''gone''])
          = Some (Returns (items, Some e), w') \<and> length (requests w') = 2"
    by (simp add: example_defs)
  then obtain items e w' where run: "GetBucket (example_lib [(''p1'', example_page ''bkt'' ''a'' 10 [''a'', ''b''] True)])
            example_client ''bkt'' ''a'' 10 (start [response 200 ''p1'', response 404 ''gone''])
          = Some (Returns (items, Some e), w')" and n: "length (requests w') = 2" by blast
  from GetBucket_error_returns_no_items[OF run] have "items = []" by simp
  with run n show ?thesis by blast
qed

text \<open>
  Calls do return when the transport answers finitely often: against a transport that
  replays a list of outcomes each page uses up at least one of them, so the page loop
  ends.
\<close>

lemma replay_RoundTrip:
  assumes "RoundTrip replay req (Sleep ms w) = (r, w2)"
  shows "length (net w2) \<le> length (net w)"
    and "r = Inr res \<Longrightarrow> length (net w2) < length (net w)"
  using assms by (auto simp: RoundTrip_def replay_def Sleep_def split: list.splits)

lemma GetBucket_tries_replay:
  assumes rp: "transport lib c = replay"
  shows "length (net (snd (GetBucket_tries lib c bucket marker fetchN url try bres w))) \<le> length (net w) \<and>
         (try \<le> maxTries \<longrightarrow>
            (\<forall>b. fst (GetBucket_tries lib c bucket marker fetchN url try bres w) = LoopLeft b \<longrightarrow>
               length (net (snd (GetBucket_tries lib c bucket marker fetchN url try bres w))) < length (net w)))"
proof (rule GetBucket_tries_cases[where P = "\<lambda>try bres w r.
    length (net (snd r)) \<le> length (net w) \<and>
    (try \<le> maxTries \<longrightarrow> (\<forall>b. fst r = LoopLeft b \<longrightarrow> length (net (snd r)) < length (net w)))"],
    goal_cases)
  case (1 att bres w)
  then show ?case by simp
next
  case (2 att bres w perr)
  then show ?case by (simp add: Sleep_def)
next
  case (3 att bres w req err w2)
  from replay_RoundTrip(1)[OF 3(3)[unfolded rp]] have "length (net w2) \<le> length (net w)" .
  with 3(4,5) show ?case by auto
next
  case (4 att bres w req err w2)
  from replay_RoundTrip(1)[OF 4(3)[unfolded rp]] show ?case by simp
next
  case (5 att bres w req res w2 e)
  from replay_RoundTrip(1)[OF 5(3)[unfolded rp]] show ?case by simp
next
  case (6 att bres w req res w2)
  from replay_RoundTrip(2)[OF 6(3)[unfolded rp] refl] show ?case by simp
next
  case (7 att bres w req res w2 bres')
  from replay_RoundTrip(1)[OF 7(3)[unfolded rp]] have "length (net w2) \<le> length (net w)" .
  with 7(5,6) show ?case by (auto simp: maxTries_def)
next
  case (8 att bres w req res w2 e)
  from replay_RoundTrip(1)[OF 8(3)[unfolded rp]] show ?case by simp
next
  case (9 att bres w req res w2 bres')
  from replay_RoundTrip(2)[OF 9(3)[unfolded rp] refl] show ?case by simp
qed

lemma GetBucket_pages_returns:
  assumes rp: "transport lib c = replay"
  shows "\<exists>y. GetBucket_pages lib c bucket startAt maxKeys items marker w = Some y"
proof (induction "length (net w)" arbitrary: items marker w rule: less_induct)
  case less
  show ?case
  proof (cases "int (length items) < maxKeys")
    case False
    then show ?thesis by (subst GetBucket_pages.simps) simp
  next
    case True
    obtain ex w' where t: "GetBucket_tries lib c bucket marker (GetBucket_fetchN maxKeys items)
        (GetBucket_url lib c bucket marker (GetBucket_fetchN maxKeys items))
        1 listBucketResults_zero w = (ex, w')"
      by (cases "GetBucket_tries lib c bucket marker (GetBucket_fetchN maxKeys items)
        (GetBucket_url lib c bucket marker (GetBucket_fetchN maxKeys items))
        1 listBucketResults_zero w")
    show ?thesis
    proof (cases ex)
      case (ReturnErr err)
      with True t show ?thesis by (subst GetBucket_pages.simps) simp
    next
      case (NewReqPanic perr)
      with True t show ?thesis by (subst GetBucket_pages.simps) simp
    next
      case (LoopLeft bres)
      from GetBucket_tries_replay[OF rp, of bucket marker "GetBucket_fetchN maxKeys items"
          "GetBucket_url lib c bucket marker (GetBucket_fetchN maxKeys items)" 1 listBucketResults_zero w]
        t LoopLeft
      have shorter: "length (net w') < length (net w)" by (simp add: maxTries_def)
      show ?thesis
      proof (cases "GetBucket_range startAt (Contents bres) items marker")
        case (Inl err)
        with True t LoopLeft show ?thesis by (subst GetBucket_pages.simps) simp
      next
        case (Inr p)
        obtain items' marker' where p: "p = (items', marker')" by (cases p)
        show ?thesis
        proof (cases "IsTruncated bres")
          case False
          with True t LoopLeft Inr p show ?thesis by (subst GetBucket_pages.simps) simp
        next
          case tr: True
          from less[OF shorter, of items' marker'] True t LoopLeft Inr p tr show ?thesis
            by (subst GetBucket_pages.simps) simp
        qed
      qed
    qed
  qed
qed

lemma GetBucket_returns:
  assumes "transport lib c = replay"
  shows "\<exists>y. GetBucket lib c bucket startAt maxKeys w = Some y"
  using GetBucket_pages_returns[OF assms] by (simp add: GetBucket_def)

text \<open>
  The two other ways of a call: it panics when \<^verbatim>\<open>http.NewRequest\<close> rejects the URL of
  the first page, and it never returns against a server that answers every request with
  an empty truncated page.
\<close>

lemma GetBucket_panics:
  assumes "0 < maxKeys"
    and "NewRequest_err lib (GetBucket_url lib c bucket startAt (GetBucket_fetchN maxKeys [])) = Some perr"
  shows "GetBucket lib c bucket startAt maxKeys w = Some (Panics perr, Sleep 0 w)"
proof -
  have "GetBucket_tries lib c bucket startAt (GetBucket_fetchN maxKeys [])
          (GetBucket_url lib c bucket startAt (GetBucket_fetchN maxKeys [])) 1 listBucketResults_zero w
        = (NewReqPanic perr, Sleep 0 w)"
    using assms(2) by (subst GetBucket_tries.simps) (simp add: newReq_def maxTries_def)
  with assms(1) show ?thesis
    by (subst GetBucket_def, subst GetBucket_pages.simps) simp
qed

lemma GetBucket_never_returns:
  "GetBucket (example_lib [(''p'', example_page ''bkt'' '''' 10 [] True)]) tireless_client ''bkt'' '''' 10 w = None"
proof -
  let ?lib = "example_lib [(''p'', example_page ''bkt'' '''' 10 [] True)]"
  let ?page = "example_page ''bkt'' '''' 10 [] True"
  have t: "fst (GetBucket_tries ?lib tireless_client ''bkt'' '''' (GetBucket_fetchN 10 [])
         (GetBucket_url ?lib tireless_client ''bkt'' '''' (GetBucket_fetchN 10 []))
         1 listBucketResults_zero w) = LoopLeft ?page" for w
    by (simp add: example_defs tireless_client_def)
  have r: "GetBucket_range '''' (Contents ?page) [] '''' = Inr ([], '''')"
    by (simp add: example_defs)
  have "\<not> (lib = ?lib \<and> c = tireless_client \<and> bucket = ''bkt'' \<and> startAt = '''' \<and> maxKeys = 10 \<and>
            items = [] \<and> marker = '''')"
    if "GetBucket_pages lib c bucket startAt maxKeys items marker w = Some y"
    for lib c bucket startAt maxKeys items marker w y
    using that
  proof (induction rule: GetBucket_pages_induct)
    case (full lib c bucket startAt maxKeys items marker w)
    then show ?case by auto
  next
    case (panic lib c bucket startAt maxKeys items marker w perr w')
    show ?case
    proof
      assume a: "lib = ?lib \<and> c = tireless_client \<and> bucket = ''bkt'' \<and> startAt = '''' \<and> maxKeys = 10 \<and>
            items = [] \<and> marker = ''''"
      with panic(2) t[of w] show False by simp
    qed
  next
    case (failed lib c bucket startAt maxKeys items marker w err w')
    show ?case
    proof
      assume a: "lib = ?lib \<and> c = tireless_client \<and> bucket = ''bkt'' \<and> startAt = '''' \<and> maxKeys = 10 \<and>
            items = [] \<and> marker = ''''"
      with failed(2) t[of w] show False by simp
    qed
  next
    case (key lib c bucket startAt maxKeys items marker w bres w' err)
    show ?case
    proof
      assume a: "lib = ?lib \<and> c = tireless_client \<and> bucket = ''bkt'' \<and> startAt = '''' \<and> maxKeys = 10 \<and>
            items = [] \<and> marker = ''''"
      with key(2) t[of w] have "bres = ?page" by simp
      with key(3) a r show False by simp
    qed
  next
    case (last lib c bucket startAt maxKeys items marker w bres w' items' marker')
    show ?case
    proof
      assume a: "lib = ?lib \<and> c = tireless_client \<and> bucket = ''bkt'' \<and> startAt = '''' \<and> maxKeys = 10 \<and>
            items = [] \<and> marker = ''''"
      with last(2) t[of w] have "bres = ?page" by simp
      with last(4) show False by (simp add: example_page_def)
    qed
  next
    case (more lib c bucket startAt maxKeys items marker w bres w' items' marker' y)
    show ?case
    proof
      assume a: "lib = ?lib \<and> c = tireless_client \<and> bucket = ''bkt'' \<and> startAt = '''' \<and> maxKeys = 10 \<and>
            items = [] \<and> marker = ''''"
      with more(2) t[of w] have "bres = ?page" by simp
      with more(3) a r have "items' = []" "marker' = ''''" by simp_all
      with more(5) a show False by simp
    qed
  qed
  then have "GetBucket_pages ?lib tireless_client ''bkt'' '''' 10 [] '''' w \<noteq> Some y" for y
    by blast
  then have "GetBucket_pages ?lib tireless_client ''bkt'' '''' 10 [] '''' w = None"
    by (cases "GetBucket_pages ?lib tireless_client ''bkt'' '''' 10 [] '''' w") blast+
  then show ?thesis by (simp add: GetBucket_def)
qed




text \<open>
  Each part of the hypothesis is needed, and it has to cover the pages that the checks
  rejected. Two accepted pages, each with increasing keys, give \<open>[a, c, b]\<close> when the second
  has a key before its marker, and \<open>[a, a, b]\<close> when the second repeats the start key. A
  page of another bucket with keys \<open>[b, a]\<close>, rejected on the first attempt, is returned as
  it is when the second attempt is answered with a 503.
\<close>

lemma GetBucket_page_hypotheses_needed:
  "map_option fst
     (GetBucket (example_lib [(''p1'', example_page ''bkt'' '''' 10 [''a'', ''c''] True),
                              (''p2'', example_page ''bkt'' ''c'' 8 [''b''] False)])
        example_client ''bkt'' '''' 10 (start [response 200 ''p1'', response 200 ''p2'']))
     = Some (Returns ([item ''a'', item ''c'', item ''b''], None)) \<and>
   map_option fst
     (GetBucket (example_lib [(''p1'', example_page ''bkt'' ''a'' 10 [''a''] True),
                              (''p2'', example_page ''bkt'' ''a'' 9 [''a'', ''b''] False)])
        example_client ''bkt'' ''a'' 10 (start [response 200 ''p1'', response 200 ''p2'']))
     = Some (Returns ([item ''a'', item ''a'', item ''b''], None)) \<and>
   map_option fst
     (GetBucket (example_lib [(''q'', example_page ''other'' '''' 10 [''b'', ''a''] False)])
        example_client ''bkt'' '''' 10 (start [response 200 ''q'', response 503 '''']))
     = Some (Returns ([item ''b'', item ''a''], None))"
  by (simp add: example_defs)

subsection \<open>Keys before the start key\<close>

lemma GetBucket_range_marker:
  "GetBucket_range startAt page items marker = Inr (items', marker') \<Longrightarrow>
   startAt \<le> marker \<Longrightarrow> startAt \<le> marker'"
proof (induction page arbitrary: items marker)
  case Nil
  then show ?case by simp
next
  case (Cons it rest)
  show ?case
  proof (cases "Key it = marker \<and> Key it \<noteq> startAt")
    case True
    with Cons.prems(1) have "GetBucket_range startAt rest items marker = Inr (items', marker')"
      by (simp split: if_splits)
    from Cons.IH[OF this Cons.prems(2)] show ?thesis .
  next
    case False
    with Cons.prems(1) have ge: "\<not> Key it < startAt"
      and rec: "GetBucket_range startAt rest (items @ [it]) (Key it) = Inr (items', marker')"
      by (simp_all split: if_splits)
    from ge have "startAt \<le> Key it" by (rule leI)
    from Cons.IH[OF rec this] show ?thesis .
  qed
qed

lemma GetBucket_range_key_before_start:
  "\<exists>it \<in> set page. Key it < startAt \<Longrightarrow> startAt \<le> marker \<Longrightarrow>
   \<exists>k. k < startAt \<and>
     GetBucket_range startAt page items marker =
       Inl (Errorf ''Unexpected response from Minio: item key %q but wanted greater than %q''
              [ArgStr k, ArgStr startAt])"
proof (induction page arbitrary: items marker)
  case Nil
  then show ?case by simp
next
  case (Cons it rest)
  show ?case
  proof (cases "Key it = marker \<and> Key it \<noteq> startAt")
    case True
    have step: "GetBucket_range startAt (it # rest) items marker =
                     GetBucket_range startAt rest items marker"
      by (simp only: GetBucket_range.simps if_P[OF True])
    from True Cons.prems(2) have "\<not> Key it < startAt" by (simp add: not_less)
    with Cons.prems(1) have "\<exists>it \<in> set rest. Key it < startAt" by simp
    from Cons.IH[OF this Cons.prems(2)] show ?thesis unfolding step .
  next
    case False
    show ?thesis
    proof (cases "Key it < startAt")
      case True
      have "GetBucket_range startAt (it # rest) items marker =
          Inl (Errorf ''Unexpected response from Minio: item key %q but wanted greater than %q''
                 [ArgStr (Key it), ArgStr startAt])"
        by (simp only: GetBucket_range.simps if_P[OF True] if_not_P[OF False])
      with True show ?thesis by blast
    next
      case ge: False
      have step: "GetBucket_range startAt (it # rest) items marker =
                     GetBucket_range startAt rest (items @ [it]) (Key it)"
        by (simp only: GetBucket_range.simps if_not_P[OF False] if_not_P[OF ge])
      from ge Cons.prems(1) have bad: "\<exists>it \<in> set rest. Key it < startAt" by simp
      from ge have "startAt \<le> Key it" by (rule leI)
      from Cons.IH[OF bad this] show ?thesis unfolding step .
    qed
  qed
qed

lemma GetBucket_reaches_marker:
  "GetBucket_reaches lib c bucket startAt maxKeys w0 items marker w \<Longrightarrow> startAt \<le> marker"
proof (induction rule: GetBucket_reaches.induct)
  case first_page
  show ?case by simp
next
  case (next_page items marker w bres w' items' marker')
  from GetBucket_range_marker[OF next_page(4) next_page(6)] show ?case .
qed

lemma GetBucket_reaches_pages:
  "GetBucket_reaches lib c bucket startAt maxKeys w0 items marker w \<Longrightarrow>
   GetBucket_pages lib c bucket startAt maxKeys [] startAt w0 =
   GetBucket_pages lib c bucket startAt maxKeys items marker w"
proof (induction rule: GetBucket_reaches.induct)
  case first_page
  show ?case by simp
next
  case (next_page items marker w bres w' items' marker')
  have "GetBucket_pages lib c bucket startAt maxKeys items marker w =
        GetBucket_pages lib c bucket startAt maxKeys items' marker' w'"
    by (subst GetBucket_pages.simps) (simp add: next_page(2,3,4,5))
  with next_page(6) show ?case by simp
qed

text \<open>
  Claim C7. If the page with which the retry loop is left, at whatever page of the listing,
  holds an item whose key is less than the start key, then \<^verbatim>\<open>GetBucket\<close> returns the
  protocol error for the first such key together with nil items, in the world in which
  the page arrived: nothing is sent or slept after it.
\<close>

theorem GetBucket_key_before_start_is_fatal:
  assumes reach: "GetBucket_reaches lib c bucket startAt maxKeys w0 items marker w"
    and room: "int (length items) < maxKeys"
    and fetched: "GetBucket_tries lib c bucket marker (GetBucket_fetchN maxKeys items)
         (GetBucket_url lib c bucket marker (GetBucket_fetchN maxKeys items))
         1 listBucketResults_zero w = (LoopLeft bres, w')"
    and bad: "\<exists>it \<in> set (Contents bres). Key it < startAt"
  shows "\<exists>k. k < startAt \<and>
     GetBucket lib c bucket startAt maxKeys w0 =
       Some (Returns ([], Some (Errorf ''Unexpected response from Minio: item key %q but wanted greater than %q''
                                  [ArgStr k, ArgStr startAt])), w')"
proof -
  from GetBucket_range_key_before_start[OF bad GetBucket_reaches_marker[OF reach]]
  obtain k where k: "k < startAt"
    and r: "GetBucket_range startAt (Contents bres) items marker =
       Inl (Errorf ''Unexpected response from Minio: item key %q but wanted greater than %q''
              [ArgStr k, ArgStr startAt])"
    by blast
  have "GetBucket_pages lib c bucket startAt maxKeys items marker w =
       Some (Returns ([], Some (Errorf ''Unexpected response from Minio: item key %q but wanted greater than %q''
                                  [ArgStr k, ArgStr startAt])), w')"
    by (subst GetBucket_pages.simps) (simp add: room fetched r)
  moreover from room have "\<not> maxKeys < 0" by simp
  ultimately have "GetBucket lib c bucket startAt maxKeys w0 =
       Some (Returns ([], Some (Errorf ''Unexpected response from Minio: item key %q but wanted greater than %q''
                                  [ArgStr k, ArgStr startAt])), w')"
    using GetBucket_reaches_pages[OF reach] by (simp add: GetBucket_def)
  with k show ?thesis by blast
qed

theorem GetBucket_key_before_start_is_fatal_witness:
  "\<exists>k w'. k < ''b'' \<and>
     GetBucket (example_lib [(''p1'', example_page ''bkt'' ''b'' 10 [''b'', ''c''] True),
                             (''p2'', example_page ''bkt'' ''c'' 8 [''c'', ''a''] False)])
       example_client ''bkt'' ''b'' 10 (start [response 200 ''p1'', response 200 ''p2'', response 200 ''p2''])
     = Some (Returns ([], Some (Errorf ''Unexpected response from Minio: item key %q but wanted greater than %q''
                                  [ArgStr k, ArgStr ''b''])), w') \<and>
     length (requests w') = 2 \<and> net w' = [response 200 ''p2'']"
proof -
  let ?lib = "example_lib [(''p1'', example_page ''bkt'' ''b'' 10 [''b'', ''c''] True),
                           (''p2'', example_page ''bkt'' ''c'' 8 [''c'', ''a''] False)]"
  let ?w0 = "start [response 200 ''p1'', response 200 ''p2'', response 200 ''p2'']"
  define w1 where "w1 = snd (GetBucket_tries ?lib example_client ''bkt'' ''b'' (GetBucket_fetchN 10 [])
      (GetBucket_url ?lib example_client ''bkt'' ''b'' (GetBucket_fetchN 10 [])) 1 listBucketResults_zero ?w0)"
  define w2 where "w2 = snd (GetBucket_tries ?lib example_client ''bkt'' ''c'' (GetBucket_fetchN 10 [item ''b'', item ''c''])
      (GetBucket_url ?lib example_client ''bkt'' ''c'' (GetBucket_fetchN 10 [item ''b'', item ''c''])) 1 listBucketResults_zero w1)"
  have t1: "GetBucket_tries ?lib example_client ''bkt'' ''b'' (GetBucket_fetchN 10 [])
      (GetBucket_url ?lib example_client ''bkt'' ''b'' (GetBucket_fetchN 10 [])) 1 listBucketResults_zero ?w0
      = (LoopLeft (example_page ''bkt'' ''b'' 10 [''b'', ''c''] True), w1)"
    unfolding w1_def by (simp add: example_defs)
  have w1: "net w1 = [response 200 ''p2'', response 200 ''p2'']" "length (requests w1) = 1"
    unfolding w1_def by (simp_all add: example_defs)
  have t2: "GetBucket_tries ?lib example_client ''bkt'' ''c'' (GetBucket_fetchN 10 [item ''b'', item ''c''])
      (GetBucket_url ?lib example_client ''bkt'' ''c'' (GetBucket_fetchN 10 [item ''b'', item ''c''])) 1 listBucketResults_zero w1
      = (LoopLeft (example_page ''bkt'' ''c'' 8 [''c'', ''a''] False), w2)"
    unfolding w2_def using w1 by (simp add: example_defs)
  have w2: "net w2 = [response 200 ''p2'']" "length (requests w2) = 2"
    unfolding w2_def using w1 by (simp_all add: example_defs)
  have r1: "GetBucket_range ''b'' (Contents (example_page ''bkt'' ''b'' 10 [''b'', ''c''] True)) [] ''b''
      = Inr ([item ''b'', item ''c''], ''c'')"
    by (simp add: example_defs)
  have reach: "GetBucket_reaches ?lib example_client ''bkt'' ''b'' 10 ?w0 [item ''b'', item ''c''] ''c'' w1"
    by (rule GetBucket_reaches.next_page[OF GetBucket_reaches.first_page _ t1 r1])
       (simp_all add: example_defs)
  have bad: "\<exists>it \<in> set (Contents (example_page ''bkt'' ''c'' 8 [''c'', ''a''] False)). Key it < ''b''"
    by (simp add: example_defs)
  from GetBucket_key_before_start_is_fatal[OF reach _ t2 bad] w2 show ?thesis
    by auto
qed

subsection \<open>Two pages\<close>

text \<open>
  Claim C5. \<^verbatim>\<open>GetBucket\<close> is called with start key \<^verbatim>\<open>"a"\<close> and room for at least three
  items. The retry loop for the first page is left with a page of keys \<^verbatim>\<open>["a","b"]\<close> that
  is truncated, and the one for the second page, requested with marker \<^verbatim>\<open>"b"\<close>, with a
  page of keys \<^verbatim>\<open>["b","c"]\<close> that ends the listing. Then the call returns the two items
  of the first page followed by the second item of the second page, with keys
  \<^verbatim>\<open>["a","b","c"]\<close>. In general an item leaves \<^verbatim>\<open>items\<close> and \<^verbatim>\<open>marker\<close> as they are exactly
  when its key equals the marker and differs from the start key.
\<close>

theorem GetBucket_two_pages:
  assumes many: "3 \<le> maxKeys"
    and first: "GetBucket_tries lib c bucket ''a'' (GetBucket_fetchN maxKeys [])
           (GetBucket_url lib c bucket ''a'' (GetBucket_fetchN maxKeys []))
           1 listBucketResults_zero w0 = (LoopLeft page1, w1)"
    and keys1: "map Key (Contents page1) = [''a'', ''b'']"
    and trunc1: "IsTruncated page1"
    and second: "GetBucket_tries lib c bucket ''b'' (GetBucket_fetchN maxKeys (Contents page1))
           (GetBucket_url lib c bucket ''b'' (GetBucket_fetchN maxKeys (Contents page1)))
           1 listBucketResults_zero w1 = (LoopLeft page2, w2)"
    and keys2: "map Key (Contents page2) = [''b'', ''c'']"
    and final: "\<not> IsTruncated page2 \<or> maxKeys = 3"
  shows "GetBucket lib c bucket ''a'' maxKeys w0 =
           Some (Returns (Contents page1 @ tl (Contents page2), None), w2) \<and>
         map Key (Contents page1 @ tl (Contents page2)) = [''a'', ''b'', ''c''] \<and>
         (\<forall>startAt it items marker.
            (GetBucket_range startAt [it] items marker = Inr (items, marker)) =
            (Key it = marker \<and> Key it \<noteq> startAt))"
proof (intro conjI allI)
  from keys1 obtain ia ib where c1: "Contents page1 = [ia, ib]" and ka: "Key ia = ''a''" and kb: "Key ib = ''b''"
    by (cases "Contents page1") auto
  from keys2 obtain ib' ic where c2: "Contents page2 = [ib', ic]" and kb': "Key ib' = ''b''" and kc: "Key ic = ''c''"
    by (cases "Contents page2") auto
  have r1: "GetBucket_range ''a'' (Contents page1) [] ''a'' = Inr ([ia, ib], ''b'')"
    by (simp add: c1 ka kb)
  have r2: "GetBucket_range ''a'' (Contents page2) [ia, ib] ''b'' = Inr ([ia, ib, ic], ''c'')"
    by (simp add: c2 kb' kc)
  have two: "GetBucket_pages lib c bucket ''a'' maxKeys [ia, ib] ''b'' w1 = Some (Returns ([ia, ib, ic], None), w2)"
  proof (cases "IsTruncated page2")
    case False
    show ?thesis
      using many second[unfolded c1] r2 False by (subst GetBucket_pages.simps) simp
  next
    case True
    with final have m3: "maxKeys = 3" by simp
    have "GetBucket_pages lib c bucket ''a'' maxKeys [ia, ib] ''b'' w1 =
          GetBucket_pages lib c bucket ''a'' maxKeys [ia, ib, ic] ''c'' w2"
      using many second[unfolded c1] r2 True by (subst GetBucket_pages.simps) simp
    also have "\<dots> = Some (Returns ([ia, ib, ic], None), w2)"
      using m3 by (subst GetBucket_pages.simps) simp
    finally show ?thesis .
  qed
  have "GetBucket_pages lib c bucket ''a'' maxKeys [] ''a'' w0 =
        GetBucket_pages lib c bucket ''a'' maxKeys [ia, ib] ''b'' w1"
    using many first r1 trunc1 by (subst GetBucket_pages.simps) simp
  with two many show "GetBucket lib c bucket ''a'' maxKeys w0 =
           Some (Returns (Contents page1 @ tl (Contents page2), None), w2)"
    by (simp add: GetBucket_def c1 c2)
  show "map Key (Contents page1 @ tl (Contents page2)) = [''a'', ''b'', ''c'']"
    by (simp add: c1 c2 ka kb kc)
next
  fix startAt it items marker
  show "(GetBucket_range startAt [it] items marker = Inr (items, marker)) =
        (Key it = marker \<and> Key it \<noteq> startAt)"
  proof (cases "Key it = marker \<and> Key it \<noteq> startAt")
    case True
    have eq: "GetBucket_range startAt [it] items marker = Inr (items, marker)"
      by (simp only: GetBucket_range.simps if_P[OF True])
    show ?thesis
    proof (rule iffI)
      assume "GetBucket_range startAt [it] items marker = Inr (items, marker)"
      show "Key it = marker \<and> Key it \<noteq> startAt" by (rule True)
    next
      assume "Key it = marker \<and> Key it \<noteq> startAt"
      show "GetBucket_range startAt [it] items marker = Inr (items, marker)" by (rule eq)
    qed
  next
    case False
    show ?thesis
    proof (cases "Key it < startAt")
      case True
      have eq: "GetBucket_range startAt [it] items marker =
          Inl (Errorf ''Unexpected response from Minio: item key %q but wanted greater than %q''
                 [ArgStr (Key it), ArgStr startAt])"
        by (simp only: GetBucket_range.simps if_P[OF True] if_not_P[OF False])
      show ?thesis unfolding eq using False by simp
    next
      case ge: False
      have eq: "GetBucket_range startAt [it] items marker = Inr (items @ [it], Key it)"
        by (simp only: GetBucket_range.simps if_not_P[OF False] if_not_P[OF ge])
      show ?thesis unfolding eq using False by simp
    qed
  qed
qed

theorem GetBucket_two_pages_witness:
  "map_option fst
     (GetBucket (example_lib [(''p1'', example_page ''bkt'' ''a'' 10 [''a'', ''b''] True),
                              (''p2'', example_page ''bkt'' ''b'' 8 [''b'', ''c''] False)])
        example_client ''bkt'' ''a'' 10 (start [response 200 ''p1'', response 200 ''p2'']))
     = Some (Returns ([item ''a'', item ''b'', item ''c''], None)) \<and>
   GetBucket_range ''a'' [item ''b''] [item ''a'', item ''b''] ''b'' = Inr ([item ''a'', item ''b''], ''b'')"
proof -
  let ?lib = "example_lib [(''p1'', example_page ''bkt'' ''a'' 10 [''a'', ''b''] True),
                           (''p2'', example_page ''bkt'' ''b'' 8 [''b'', ''c''] False)]"
  let ?p1 = "example_page ''bkt'' ''a'' 10 [''a'', ''b''] True"
  let ?p2 = "example_page ''bkt'' ''b'' 8 [''b'', ''c''] False"
  let ?w0 = "start [response 200 ''p1'', response 200 ''p2'']"
  define w1 where "w1 = snd (GetBucket_tries ?lib example_client ''bkt'' ''a'' (GetBucket_fetchN 10 [])
      (GetBucket_url ?lib example_client ''bkt'' ''a'' (GetBucket_fetchN 10 [])) 1 listBucketResults_zero ?w0)"
  define w2 where "w2 = snd (GetBucket_tries ?lib example_client ''bkt'' ''b'' (GetBucket_fetchN 10 (Contents ?p1))
      (GetBucket_url ?lib example_client ''bkt'' ''b'' (GetBucket_fetchN 10 (Contents ?p1))) 1 listBucketResults_zero w1)"
  have t1: "GetBucket_tries ?lib example_client ''bkt'' ''a'' (GetBucket_fetchN 10 [])
      (GetBucket_url ?lib example_client ''bkt'' ''a'' (GetBucket_fetchN 10 [])) 1 listBucketResults_zero ?w0
      = (LoopLeft ?p1, w1)"
    unfolding w1_def by (simp add: example_defs)
  have w1: "net w1 = [response 200 ''p2'']"
    unfolding w1_def by (simp add: example_defs)
  have t2: "GetBucket_tries ?lib example_client ''bkt'' ''b'' (GetBucket_fetchN 10 (Contents ?p1))
      (GetBucket_url ?lib example_client ''bkt'' ''b'' (GetBucket_fetchN 10 (Contents ?p1))) 1 listBucketResults_zero w1
      = (LoopLeft ?p2, w2)"
    unfolding w2_def using w1 by (simp add: example_defs)
  have k1: "map Key (Contents ?p1) = [''a'', ''b'']" and k2: "map Key (Contents ?p2) = [''b'', ''c'']"
    and tr: "IsTruncated ?p1" and fin: "\<not> IsTruncated ?p2 \<or> (10::int) = 3"
    by (simp_all add: example_defs)
  from GetBucket_two_pages[OF _ t1 k1 tr t2 k2 fin] show ?thesis
    by (simp add: example_defs)
qed

subsection \<open>Stat and GetPartial\<close>

text \<open>
  Claim C8. \<^verbatim>\<open>Stat\<close> sends one \<^verbatim>\<open>HEAD\<close> request for the URL of the key. When the transport
  answers it with a response, status 404 gives size 0 with the value \<open>ErrNotExist\<close>
  (\<^verbatim>\<open>os.ErrNotExist\<close>), which differs from the error of every other status; status 200
  gives what \<^verbatim>\<open>ParseInt\<close> makes of the \<^verbatim>\<open>Content-Length\<close> header; and any other status gives
  size 0 with an error that carries the status code.
\<close>

theorem Stat_status_outcomes:
  assumes url: "NewRequest_err lib (keyURL c bucket key) = None"
    and req: "req = \<lparr>Method = ''HEAD'', URL = keyURL c bucket key,
                     ReqHeader = [''User-Agent'' \<mapsto> [''minio'']],
                     ReqContentLength = 0, ReqBody = None\<rparr>"
    and answer: "transport lib c req (net w) = (Inr res, n)"
  shows "snd (Stat lib c key bucket w) = w\<lparr>net := n, requests := requests w @ [req]\<rparr> \<and>
    (StatusCode res = 404 \<longrightarrow> fst (Stat lib c key bucket w) = Returns (0, Some ErrNotExist)) \<and>
    (StatusCode res = 200 \<longrightarrow>
       fst (Stat lib c key bucket w) = Returns (ParseInt lib (Header_Get (Header res) ''Content-Length''))) \<and>
    (StatusCode res \<noteq> 404 \<and> StatusCode res \<noteq> 200 \<longrightarrow>
       fst (Stat lib c key bucket w) =
         Returns (0, Some (Errorf ''minio: Unexpected status code %d statting object %v''
                             [ArgInt (StatusCode res), ArgStr key])))"
proof -
  have nr: "newReq lib (keyURL c bucket key) =
      Returns \<lparr>Method = ''GET'', URL = keyURL c bucket key,
               ReqHeader = [''User-Agent'' \<mapsto> [''minio'']],
               ReqContentLength = 0, ReqBody = None\<rparr>"
    by (simp add: newReq_def url Header_Set_def)
  have rt: "RoundTrip (transport lib c) req w = (Inr res, w\<lparr>net := n, requests := requests w @ [req]\<rparr>)"
    by (simp add: RoundTrip_def answer)
  show ?thesis
    by (simp add: Stat_def nr rt[unfolded req] req)
qed

theorem Stat_status_outcomes_witness:
  "fst (Stat (example_lib []) example_client ''k'' ''bkt'' (start [response 404 '''']))
     = Returns (0, Some ErrNotExist) \<and>
   fst (Stat (example_lib []) example_client ''k'' ''bkt''
          (start [Inr \<lparr>StatusCode = 200, Header = [''Content-Length'' \<mapsto> [''42'']], Body = '''', ContentLength = 42\<rparr>]))
     = Returns (42, None) \<and>
   fst (Stat (example_lib []) example_client ''k'' ''bkt'' (start [response 500 '''']))
     = Returns (0, Some (Errorf ''minio: Unexpected status code %d statting object %v'' [ArgInt 500, ArgStr ''k''])) \<and>
   map URL (requests (snd (Stat (example_lib []) example_client ''k'' ''bkt'' (start [response 404 '''']))))
     = [''http://localhost/bkt/k'']"
proof -
  let ?req = "\<lparr>Method = ''HEAD'', URL = keyURL example_client ''bkt'' ''k'',
                     ReqHeader = [''User-Agent'' \<mapsto> [''minio'']],
                     ReqContentLength = 0, ReqBody = None\<rparr>"
  have u: "NewRequest_err (example_lib []) (keyURL example_client ''bkt'' ''k'') = None"
    by (simp add: example_lib_def)
  have a: "transport (example_lib []) example_client ?req (net (start [response 404 ''''])) =
            (Inr \<lparr>StatusCode = 404, Header = Map.empty, Body = '''', ContentLength = 0\<rparr>, [])"
    by (simp add: example_defs)
  have b: "transport (example_lib []) example_client ?req
            (net (start [Inr \<lparr>StatusCode = 200, Header = [''Content-Length'' \<mapsto> [''42'']], Body = '''', ContentLength = 42\<rparr>])) =
            (Inr \<lparr>StatusCode = 200, Header = [''Content-Length'' \<mapsto> [''42'']], Body = '''', ContentLength = 42\<rparr>, [])"
    by (simp add: example_defs)
  have c: "transport (example_lib []) example_client ?req (net (start [response 500 ''''])) =
            (Inr \<lparr>StatusCode = 500, Header = Map.empty, Body = '''', ContentLength = 0\<rparr>, [])"
    by (simp add: example_defs)
  from Stat_status_outcomes[OF u refl a] Stat_status_outcomes[OF u refl b] Stat_status_outcomes[OF u refl c]
  show ?thesis
    by (simp add: example_defs Header_Get_def)
qed

text \<open>Where the true sum fits into \<^verbatim>\<open>int64\<close>, the sum of the code is the true sum.\<close>

lemma sint_sum_pred:
  fixes a b :: "64 word"
  assumes "0 \<le> sint a" "0 \<le> sint b" "sint a + sint b - 1 < 2 ^ 63"
  shows "sint (a + b - 1) = sint a + sint b - 1"
proof -
  have "sint (a + b - 1) = signed_take_bit 63 (signed_take_bit 63 (sint a + sint b) - signed_take_bit 63 1)"
    by (simp add: sint_word_ariths)
  also have "\<dots> = signed_take_bit 63 (sint a + sint b - 1)"
    by (simp only: signed_take_bit_diff)
  also have "\<dots> = sint a + sint b - 1"
    using assms by (intro signed_take_bit_int_eq_self) simp_all
  finally show ?thesis .
qed

text \<open>
  Claim C9. \<^verbatim>\<open>GetPartial\<close> with a non-negative offset sends one request whose \<^verbatim>\<open>Range\<close>
  header is \<^verbatim>\<open>bytes=offset-(offset+length-1)\<close> when \<^verbatim>\<open>length >= 0\<close> and \<^verbatim>\<open>bytes=offset-\<close>
  when \<^verbatim>\<open>length < 0\<close>. The sum is the one of \<^verbatim>\<open>int64\<close>, which is the sum of the integers
  whenever that is at most \<^verbatim>\<open>2^63-1\<close>. When the transport answers with a response, status
  200 or 206 gives the body, status 404 gives \<open>ErrNotExist\<close> and any other status gives
  an error that carries the status code.
\<close>

theorem GetPartial_range_and_status:
  assumes off: "0 \<le> sint offset"
    and url: "NewRequest_err lib (keyURL c bucket key) = None"
    and rng: "rng = (if 0 \<le> sint len
                     then ''bytes='' @ itoa (sint offset) @ ''-'' @ itoa (sint (offset + len - 1))
                     else ''bytes='' @ itoa (sint offset) @ ''-'')"
    and req: "req = \<lparr>Method = ''GET'', URL = keyURL c bucket key,
                     ReqHeader = [''User-Agent'' \<mapsto> [''minio''], ''Range'' \<mapsto> [rng]],
                     ReqContentLength = 0, ReqBody = None\<rparr>"
    and answer: "transport lib c req (net w) = (Inr res, n)"
  shows "snd (GetPartial lib c bucket key offset len w) = w\<lparr>net := n, requests := requests w @ [req]\<rparr> \<and>
    Header_Get (ReqHeader req) ''Range'' = rng \<and>
    (0 \<le> sint len \<and> sint offset + sint len - 1 < 2 ^ 63 \<longrightarrow>
       sint (offset + len - 1) = sint offset + sint len - 1) \<and>
    (StatusCode res = 200 \<or> StatusCode res = 206 \<longrightarrow>
       fst (GetPartial lib c bucket key offset len w) = Returns (Some (Body res), None)) \<and>
    (StatusCode res = 404 \<longrightarrow>
       fst (GetPartial lib c bucket key offset len w) = Returns (None, Some ErrNotExist)) \<and>
    (StatusCode res \<noteq> 200 \<and> StatusCode res \<noteq> 206 \<and> StatusCode res \<noteq> 404 \<longrightarrow>
       fst (GetPartial lib c bucket key offset len w) =
         Returns (None, Some (Errorf ''Minio HTTP error on GET: %d'' [ArgInt (StatusCode res)])))"
proof -
  have nr: "newReq lib (keyURL c bucket key) =
      Returns \<lparr>Method = ''GET'', URL = keyURL c bucket key,
               ReqHeader = [''User-Agent'' \<mapsto> [''minio'']],
               ReqContentLength = 0, ReqBody = None\<rparr>"
    by (simp add: newReq_def url Header_Set_def)
  have r: "GetPartial_range offset len = rng"
    by (simp add: GetPartial_range_def rng)
  have rt: "RoundTrip (transport lib c) req w = (Inr res, w\<lparr>net := n, requests := requests w @ [req]\<rparr>)"
    by (simp add: RoundTrip_def answer)
  from off have no: "\<not> sint offset < 0" by simp
  have hg: "Header_Get (ReqHeader req) ''Range'' = rng"
    by (simp add: req Header_Get_def)
  have fits: "0 \<le> sint len \<and> sint offset + sint len - 1 < 2 ^ 63 \<longrightarrow>
       sint (offset + len - 1) = sint offset + sint len - 1"
    using sint_sum_pred[OF off] by blast
  show ?thesis
    by (simp add: GetPartial_def no nr r Header_Set_def rt[unfolded req] req Header_Get_def fits)
qed

theorem GetPartial_range_and_status_witness:
  "fst (GetPartial (example_lib []) example_client ''bkt'' ''k'' 10 5 (start [response 206 ''hello'']))
     = Returns (Some ''hello'', None) \<and>
   map (\<lambda>r. Header_Get (ReqHeader r) ''Range'')
     (requests (snd (GetPartial (example_lib []) example_client ''bkt'' ''k'' 10 5 (start [response 206 ''hello'']))))
     = [''bytes=10-14''] \<and>
   fst (GetPartial (example_lib []) example_client ''bkt'' ''k'' 10 (- 1) (start [response 404 '''']))
     = Returns (None, Some ErrNotExist) \<and>
   map (\<lambda>r. Header_Get (ReqHeader r) ''Range'')
     (requests (snd (GetPartial (example_lib []) example_client ''bkt'' ''k'' 10 (- 1) (start [response 404 '''']))))
     = [''bytes=10-'']"
proof -
  have u: "NewRequest_err (example_lib []) (keyURL example_client ''bkt'' ''k'') = None"
    by (simp add: example_lib_def)
  have o: "0 \<le> sint (10 :: 64 word)" by simp
  let ?req1 = "\<lparr>Method = ''GET'', URL = keyURL example_client ''bkt'' ''k'',
                     ReqHeader = [''User-Agent'' \<mapsto> [''minio''], ''Range'' \<mapsto> [''bytes=10-14'']],
                     ReqContentLength = 0, ReqBody = None\<rparr>"
  let ?req2 = "\<lparr>Method = ''GET'', URL = keyURL example_client ''bkt'' ''k'',
                     ReqHeader = [''User-Agent'' \<mapsto> [''minio''], ''Range'' \<mapsto> [''bytes=10-'']],
                     ReqContentLength = 0, ReqBody = None\<rparr>"
  have r1: "''bytes=10-14'' = (if 0 \<le> sint (5 :: 64 word)
                     then ''bytes='' @ itoa (sint (10 :: 64 word)) @ ''-'' @ itoa (sint (10 + 5 - 1 :: 64 word))
                     else ''bytes='' @ itoa (sint (10 :: 64 word)) @ ''-'')"
    by (simp add: itoa_def digits.simps)
  have r2: "''bytes=10-'' = (if 0 \<le> sint (- 1 :: 64 word)
                     then ''bytes='' @ itoa (sint (10 :: 64 word)) @ ''-'' @ itoa (sint (10 + (- 1) - 1 :: 64 word))
                     else ''bytes='' @ itoa (sint (10 :: 64 word)) @ ''-'')"
    by (simp add: itoa_def digits.simps)
  have a1: "transport (example_lib []) example_client ?req1 (net (start [response 206 ''hello''])) =
            (Inr \<lparr>StatusCode = 206, Header = Map.empty, Body = ''hello'', ContentLength = 0\<rparr>, [])"
    by (simp add: example_defs)
  have a2: "transport (example_lib []) example_client ?req2 (net (start [response 404 ''''])) =
            (Inr \<lparr>StatusCode = 404, Header = Map.empty, Body = '''', ContentLength = 0\<rparr>, [])"
    by (simp add: example_defs)
  from GetPartial_range_and_status[OF o u r1 refl a1] GetPartial_range_and_status[OF o u r2 refl a2]
  show ?thesis
    by (simp add: Header_Get_def start_def)
qed

text \<open>The sum \<^verbatim>\<open>offset+length-1\<close> wraps when it leaves \<^verbatim>\<open>int64\<close>, and the header shows it.\<close>

lemma GetPartial_range_wraps:
  "GetPartial_range 9223372036854775807 2 = ''bytes=9223372036854775807--9223372036854775808''"
  by (simp add: GetPartial_range_def itoa_def digits.simps)

subsection \<open>The retry loop\<close>

text \<open>One attempt, by what the transport answers.\<close>

lemma GetBucket_tries_server_error:
  assumes "try \<le> maxTries"
    and "newReq lib url = Returns req"
    and "RoundTrip (transport lib c) req (Sleep ((try - 1) * 100) w) = (Inr res, w2)"
    and "500 \<le> StatusCode res"
  shows "GetBucket_tries lib c bucket marker fetchN url try bres w = (LoopLeft bres, w2)"
  using assms by (subst GetBucket_tries.simps) simp

lemma GetBucket_tries_client_error:
  assumes "try \<le> maxTries"
    and "newReq lib url = Returns req"
    and "RoundTrip (transport lib c) req (Sleep ((try - 1) * 100) w) = (Inr res, w2)"
    and "StatusCode res \<noteq> 200" and "StatusCode res < 500"
  shows "\<exists>e. GetBucket_tries lib c bucket marker fetchN url try bres w = (ReturnErr (MinioError e), w2) \<and>
             Code e = StatusCode res"
  using assms by (subst GetBucket_tries.simps) (simp add: parseXML_def Let_def)

lemma GetBucket_tries_transport_error:
  assumes "try \<le> maxTries"
    and "newReq lib url = Returns req"
    and "RoundTrip (transport lib c) req (Sleep ((try - 1) * 100) w) = (Inl err, w2)"
  shows "GetBucket_tries lib c bucket marker fetchN url try bres w =
           (if try < maxTries then GetBucket_tries lib c bucket marker fetchN url (try + 1) bres w2
            else (ReturnErr err, w2))"
  using assms by (subst GetBucket_tries.simps) simp

lemma GetBucket_tries_invalid_page:
  assumes "try \<le> maxTries"
    and "newReq lib url = Returns req"
    and "RoundTrip (transport lib c) req (Sleep ((try - 1) * 100) w) = (Inr res, w2)"
    and "StatusCode res = 200"
    and "d = Decode_listBucketResults lib (Body res)"
    and "decodeErr d \<noteq> None \<or> MaxKeys (decoded d) \<noteq> fetchN \<or> Name (decoded d) \<noteq> bucket
           \<or> Marker (decoded d) \<noteq> marker"
  shows "\<exists>e. GetBucket_tries lib c bucket marker fetchN url try bres w =
           (if try < maxTries - 1
            then GetBucket_tries lib c bucket marker fetchN url (try + 1) (decoded d) w2
            else (ReturnErr e, w2)) \<and>
           e = (case decodeErr d of
                  Some derr \<Rightarrow> derr
                | None \<Rightarrow> Errorf ''Unexpected parse from server: %#v from: %s''
                            [ArgBres (decoded d), ArgStr (teed d)])"
proof (cases "decodeErr d")
  case None
  with assms show ?thesis
    by (subst GetBucket_tries.simps) (auto simp: Let_def)
next
  case (Some derr)
  with assms show ?thesis
    by (subst GetBucket_tries.simps) (simp add: Let_def)
qed

lemma GetBucket_tries_valid_page:
  assumes "try \<le> maxTries"
    and "newReq lib url = Returns req"
    and "RoundTrip (transport lib c) req (Sleep ((try - 1) * 100) w) = (Inr res, w2)"
    and "StatusCode res = 200"
    and "d = Decode_listBucketResults lib (Body res)"
    and "decodeErr d = None" and "MaxKeys (decoded d) = fetchN" and "Name (decoded d) = bucket"
    and "Marker (decoded d) = marker"
  shows "GetBucket_tries lib c bucket marker fetchN url try bres w = (LoopLeft (decoded d), w2)"
  using assms by (subst GetBucket_tries.simps) (simp add: Let_def)

text \<open>
  Claim C1 does not hold of the code. A response with a status of 500 or more is not
  retried: \<^verbatim>\<open>err\<close> is nil after the round trip and nothing sets it, so the retry loop is
  left by \<^verbatim>\<open>break\<close> with \<^verbatim>\<open>bres\<close> as it was. Here the first answer is a 503: the listing
  ends after that one round trip with no items and no error, the two outcomes that
  follow are never asked for, and the result differs from the one of an immediate success.
\<close>

theorem GetBucket_server_error_ends_listing:
  "map_option fst
     (GetBucket (example_lib [(''p1'', example_page ''bkt'' '''' 10 [''a''] False)]) example_client ''bkt'' '''' 10
        (start [response 200 ''p1'']))
     = Some (Returns ([item ''a''], None)) \<and>
   map_option fst
     (GetBucket (example_lib [(''p1'', example_page ''bkt'' '''' 10 [''a''] False)]) example_client ''bkt'' '''' 10
        (start [response 503 '''', response 503 '''', response 200 ''p1'']))
     = Some (Returns ([], None)) \<and>
   map_option (\<lambda>r. length (requests (snd r)))
     (GetBucket (example_lib [(''p1'', example_page ''bkt'' '''' 10 [''a''] False)]) example_client ''bkt'' '''' 10
        (start [response 503 '''', response 503 '''', response 200 ''p1'']))
     = Some 1 \<and>
   map_option (\<lambda>r. net (snd r))
     (GetBucket (example_lib [(''p1'', example_page ''bkt'' '''' 10 [''a''] False)]) example_client ''bkt'' '''' 10
        (start [response 503 '''', response 503 '''', response 200 ''p1'']))
     = Some [response 503 '''', response 200 ''p1'']"
  by (simp add: example_defs)

text \<open>
  Claim C3 does not hold of the code. An error comes with a nil item sequence, but a
  sequence returned without an error need not have been validated: the retry loop keeps
  in \<^verbatim>\<open>bres\<close> the page of an attempt it rejected, and an answer with a status of 500 or
  more on the next attempt leaves the loop with that page. Here the first answer is a
  page of another bucket, which the check of name, marker and \<^verbatim>\<open>max-keys\<close> rejects, and the
  second is a 503: the call returns the item of the rejected page and no error. Answered
  four times with that page, it returns the error of the check.
\<close>

theorem GetBucket_returns_rejected_page:
  "Name (example_page ''other'' '''' 10 [''x''] False) \<noteq> ''bkt'' \<and>
   map_option fst
     (GetBucket (example_lib [(''q'', example_page ''other'' '''' 10 [''x''] False)]) example_client ''bkt'' '''' 10
        (start [response 200 ''q'', response 503 '''']))
     = Some (Returns ([item ''x''], None)) \<and>
   map_option (\<lambda>r. (length (requests (snd r)), net (snd r)))
     (GetBucket (example_lib [(''q'', example_page ''other'' '''' 10 [''x''] False)]) example_client ''bkt'' '''' 10
        (start [response 200 ''q'', response 503 '''']))
     = Some (2, []) \<and>
   map_option fst
     (GetBucket (example_lib [(''q'', example_page ''other'' '''' 10 [''x''] False)]) example_client ''bkt'' '''' 10
        (start [response 200 ''q'', response 200 ''q'', response 200 ''q'', response 200 ''q'']))
     = Some (Returns ([], Some (Errorf ''Unexpected parse from server: %#v from: %s''
                                  [ArgBres (example_page ''other'' '''' 10 [''x''] False), ArgStr ''q''])))"
  by (simp add: example_defs)

text \<open>
  Claim C4 does not hold of the code on the fourth attempt. A body that does not decode
  is retried on the first three attempts only (\<^verbatim>\<open>try < maxTries-1\<close>): after four such
  answers the error is returned, and the fifth attempt, which would have succeeded, is
  not made. A failing round trip is retried up to the fifth attempt (\<^verbatim>\<open>try < maxTries\<close>).
\<close>

theorem GetBucket_decode_error_fourth_attempt:
  "map_option fst
     (GetBucket (example_lib [(''p1'', example_page ''bkt'' '''' 10 [''a''] False)]) example_client ''bkt'' '''' 10
        (start [response 200 ''junk'', response 200 ''junk'', response 200 ''junk'', response 200 ''junk'',
                response 200 ''p1'']))
     = Some (Returns ([], Some (Foreign ''XML syntax error''))) \<and>
   map_option (\<lambda>r. (length (requests (snd r)), net (snd r)))
     (GetBucket (example_lib [(''p1'', example_page ''bkt'' '''' 10 [''a''] False)]) example_client ''bkt'' '''' 10
        (start [response 200 ''junk'', response 200 ''junk'', response 200 ''junk'', response 200 ''junk'',
                response 200 ''p1'']))
     = Some (4, [response 200 ''p1'']) \<and>
   map_option fst
     (GetBucket (example_lib [(''p1'', example_page ''bkt'' '''' 10 [''a''] False)]) example_client ''bkt'' '''' 10
        (start [Inl (Foreign ''reset''), Inl (Foreign ''reset''), Inl (Foreign ''reset''), Inl (Foreign ''reset''),
                response 200 ''p1'']))
     = Some (Returns ([item ''a''], None)) \<and>
   map_option (\<lambda>r. (length (requests (snd r)), net (snd r)))
     (GetBucket (example_lib [(''p1'', example_page ''bkt'' '''' 10 [''a''] False)]) example_client ''bkt'' '''' 10
        (start [Inl (Foreign ''reset''), Inl (Foreign ''reset''), Inl (Foreign ''reset''), Inl (Foreign ''reset''),
                response 200 ''p1'']))
     = Some (5, [])"
  by (simp add: example_defs)

subsection \<open>The URLs of the requests\<close>

lemma sends_only_refl: "sends_only w w U"
  by (simp add: sends_only_def)

lemma sends_only_trans: "sends_only w w' U \<Longrightarrow> sends_only w' w'' U \<Longrightarrow> sends_only w w'' U"
  unfolding sends_only_def
proof -
  assume "\<exists>rs. requests w' = requests w @ rs \<and> URL ` set rs \<subseteq> U"
    and "\<exists>rs. requests w'' = requests w' @ rs \<and> URL ` set rs \<subseteq> U"
  then obtain rs rs' where a: "requests w' = requests w @ rs" "URL ` set rs \<subseteq> U"
    and b: "requests w'' = requests w' @ rs'" "URL ` set rs' \<subseteq> U" by blast
  then have "requests w'' = requests w @ (rs @ rs') \<and> URL ` set (rs @ rs') \<subseteq> U" by auto
  then show "\<exists>rs. requests w'' = requests w @ rs \<and> URL ` set rs \<subseteq> U" by blast
qed

lemma sends_only_RoundTrip:
  "RoundTrip rt req w = (r, w') \<Longrightarrow> URL req \<in> U \<Longrightarrow> sends_only w w' U"
  by (auto simp: sends_only_def RoundTrip_def split: prod.splits)

lemma sends_only_Sleep_RoundTrip:
  "RoundTrip rt req (Sleep ms w) = (r, w') \<Longrightarrow> URL req \<in> U \<Longrightarrow> sends_only w w' U"
  by (auto simp: sends_only_def RoundTrip_def Sleep_def split: prod.splits)

lemma newReq_URL: "newReq lib url = Returns req \<Longrightarrow> URL req = url"
  by (auto simp: newReq_def split: option.splits)

lemma sends_only_Sleep: "sends_only w (Sleep ms w) U"
  by (simp add: sends_only_def Sleep_def)

lemma GetBucket_tries_sends:
  "sends_only w (snd (GetBucket_tries lib c bucket marker fetchN url try bres w)) {url}"
proof (rule GetBucket_tries_cases[where P = "\<lambda>try bres w r. sends_only w (snd r) {url}"], goal_cases)
  case (1 att bres w)
  show ?case by (simp add: sends_only_refl)
next
  case (2 att bres w perr)
  show ?case by (simp add: sends_only_Sleep)
next
  case (3 att bres w req err w2)
  from sends_only_Sleep_RoundTrip[OF 3(3), of "{url}"] newReq_URL[OF 3(2)]
  have "sends_only w w2 {url}" by simp
  from sends_only_trans[OF this 3(5)] show ?case .
next
  case (4 att bres w req err w2)
  from sends_only_Sleep_RoundTrip[OF 4(3), of "{url}"] newReq_URL[OF 4(2)] show ?case by simp
next
  case (5 att bres w req res w2 e)
  from sends_only_Sleep_RoundTrip[OF 5(3), of "{url}"] newReq_URL[OF 5(2)] show ?case by simp
next
  case (6 att bres w req res w2)
  from sends_only_Sleep_RoundTrip[OF 6(3), of "{url}"] newReq_URL[OF 6(2)] show ?case by simp
next
  case (7 att bres w req res w2 bres')
  from sends_only_Sleep_RoundTrip[OF 7(3), of "{url}"] newReq_URL[OF 7(2)]
  have "sends_only w w2 {url}" by simp
  from sends_only_trans[OF this 7(6)] show ?case .
next
  case (8 att bres w req res w2 e)
  from sends_only_Sleep_RoundTrip[OF 8(3), of "{url}"] newReq_URL[OF 8(2)] show ?case by simp
next
  case (9 att bres w req res w2 bres')
  from sends_only_Sleep_RoundTrip[OF 9(3), of "{url}"] newReq_URL[OF 9(2)] show ?case by simp
qed

lemma sends_only_mono: "sends_only w w' U \<Longrightarrow> U \<subseteq> V \<Longrightarrow> sends_only w w' V"
  unfolding sends_only_def by blast

lemma GetBucket_pages_sends:
  assumes "GetBucket_pages lib c bucket startAt maxKeys items marker w = Some y"
  shows "sends_only w (snd y) {GetBucket_url lib c bucket m n | m n. True}"
  using assms
proof (induction rule: GetBucket_pages_induct)
  case (full lib c bucket startAt maxKeys items marker w)
  show ?case by (simp add: sends_only_refl)
next
  case (panic lib c bucket startAt maxKeys items marker w perr w')
  from GetBucket_tries_sends[of w lib c bucket marker "GetBucket_fetchN maxKeys items"
      "GetBucket_url lib c bucket marker (GetBucket_fetchN maxKeys items)" 1 listBucketResults_zero]
  have "sends_only w w' {GetBucket_url lib c bucket marker (GetBucket_fetchN maxKeys items)}"
    by (simp add: panic(2))
  then show ?case by (auto intro: sends_only_mono)
next
  case (failed lib c bucket startAt maxKeys items marker w err w')
  from GetBucket_tries_sends[of w lib c bucket marker "GetBucket_fetchN maxKeys items"
      "GetBucket_url lib c bucket marker (GetBucket_fetchN maxKeys items)" 1 listBucketResults_zero]
  have "sends_only w w' {GetBucket_url lib c bucket marker (GetBucket_fetchN maxKeys items)}"
    by (simp add: failed(2))
  then show ?case by (auto intro: sends_only_mono)
next
  case (key lib c bucket startAt maxKeys items marker w bres w' err)
  from GetBucket_tries_sends[of w lib c bucket marker "GetBucket_fetchN maxKeys items"
      "GetBucket_url lib c bucket marker (GetBucket_fetchN maxKeys items)" 1 listBucketResults_zero]
  have "sends_only w w' {GetBucket_url lib c bucket marker (GetBucket_fetchN maxKeys items)}"
    by (simp add: key(2))
  then show ?case by (auto intro: sends_only_mono)
next
  case (last lib c bucket startAt maxKeys items marker w bres w' items' marker')
  from GetBucket_tries_sends[of w lib c bucket marker "GetBucket_fetchN maxKeys items"
      "GetBucket_url lib c bucket marker (GetBucket_fetchN maxKeys items)" 1 listBucketResults_zero]
  have "sends_only w w' {GetBucket_url lib c bucket marker (GetBucket_fetchN maxKeys items)}"
    by (simp add: last(2))
  then show ?case by (auto intro: sends_only_mono)
next
  case (more lib c bucket startAt maxKeys items marker w bres w' items' marker' y)
  from GetBucket_tries_sends[of w lib c bucket marker "GetBucket_fetchN maxKeys items"
      "GetBucket_url lib c bucket marker (GetBucket_fetchN maxKeys items)" 1 listBucketResults_zero]
  have "sends_only w w' {GetBucket_url lib c bucket marker (GetBucket_fetchN maxKeys items)}"
    by (simp add: more(2))
  then have "sends_only w w' {GetBucket_url lib c bucket m n | m n. True}"
    by (auto intro: sends_only_mono)
  from sends_only_trans[OF this more(5)] show ?case .
qed

lemma one_round_trip_sends:
  "URL req = url \<Longrightarrow> sends_only w (snd (RoundTrip rt req w)) {url}"
  by (simp add: sends_only_def RoundTrip_def split: prod.splits)

lemma Stat_sends: "sends_only w (snd (Stat lib c key bucket w)) {keyURL c bucket key}"
proof (cases "newReq lib (keyURL c bucket key)")
  case (Panics perr)
  then show ?thesis by (simp add: Stat_def sends_only_refl)
next
  case (Returns req)
  from newReq_URL[OF Returns] have "URL (req\<lparr>Method := ''HEAD''\<rparr>) = keyURL c bucket key" by simp
  from one_round_trip_sends[OF this, of w "transport lib c"] Returns show ?thesis
    by (auto simp: Stat_def split: prod.splits sum.splits)
qed

lemma Get_sends: "sends_only w (snd (Get lib c bucket key w)) {keyURL c bucket key}"
proof (cases "newReq lib (keyURL c bucket key)")
  case (Panics perr)
  then show ?thesis by (simp add: Get_def sends_only_refl)
next
  case (Returns req)
  from one_round_trip_sends[OF newReq_URL[OF Returns], of w "transport lib c"] Returns show ?thesis
    by (auto simp: Get_def split: prod.splits sum.splits)
qed

lemma GetPartial_sends: "sends_only w (snd (GetPartial lib c bucket key offset len w)) {keyURL c bucket key}"
proof (cases "sint offset < 0")
  case True
  then show ?thesis by (simp add: GetPartial_def sends_only_refl)
next
  case False
  show ?thesis
  proof (cases "newReq lib (keyURL c bucket key)")
    case (Panics perr)
    with False show ?thesis by (simp add: GetPartial_def sends_only_refl)
  next
    case (Returns req)
    from newReq_URL[OF Returns]
    have "URL (req\<lparr>ReqHeader := Header_Set (ReqHeader req) ''Range'' (GetPartial_range offset len)\<rparr>)
            = keyURL c bucket key" by simp
    from one_round_trip_sends[OF this, of w "transport lib c"] Returns False show ?thesis
      by (auto simp: GetPartial_def split: prod.splits sum.splits)
  qed
qed

lemma Put_sends: "sends_only w (snd (Put lib c bucket key md5 sz body w)) {keyURL c bucket key}"
proof (cases "newReq lib (keyURL c bucket key)")
  case (Panics perr)
  then show ?thesis by (simp add: Put_def sends_only_refl)
next
  case (Returns req)
  define req3 where "req3 = (case md5 of
       Some digest \<Rightarrow> req\<lparr>Method := ''PUT'', ReqContentLength := sz,
                          ReqHeader := Header_Set (ReqHeader req) ''Content-MD5'' (Base64 lib digest)\<rparr>
     | None \<Rightarrow> req\<lparr>Method := ''PUT'', ReqContentLength := sz\<rparr>)\<lparr>ReqBody := Some body\<rparr>"
  from newReq_URL[OF Returns] have "URL req3 = keyURL c bucket key"
    by (simp add: req3_def split: option.splits)
  from one_round_trip_sends[OF this, of w "transport lib c"] Returns show ?thesis
    by (auto simp: Put_def Let_def req3_def split: prod.splits sum.splits option.splits)
qed

lemma PutBucket_sends: "sends_only w (snd (PutBucket lib c bucket w)) {bucketURL c bucket}"
proof (cases "newReq lib (bucketURL c bucket)")
  case (Panics perr)
  then show ?thesis by (simp add: PutBucket_def sends_only_refl)
next
  case (Returns req)
  from newReq_URL[OF Returns] have "URL (req\<lparr>Method := ''PUT''\<rparr>) = bucketURL c bucket" by simp
  from one_round_trip_sends[OF this, of w "transport lib c"] Returns show ?thesis
    by (auto simp: PutBucket_def split: prod.splits sum.splits)
qed

lemma Buckets_sends: "sends_only w (snd (Buckets lib c w)) {Buckets_url c}"
proof (cases "newReq lib (Buckets_url c)")
  case (Panics perr)
  then show ?thesis by (simp add: Buckets_def sends_only_refl)
next
  case (Returns req)
  from one_round_trip_sends[OF newReq_URL[OF Returns], of w "transport lib c"] Returns show ?thesis
    by (auto simp: Buckets_def split: prod.splits sum.splits)
qed

lemma BucketLocation_sends:
  "sends_only w (snd (BucketLocation lib c bucket h w)) {BucketLocation_url lib bucket h}"
proof (cases "newReq lib (BucketLocation_url lib bucket h)")
  case (Panics perr)
  then show ?thesis by (simp add: BucketLocation_def sends_only_refl)
next
  case (Returns req)
  from one_round_trip_sends[OF newReq_URL[OF Returns], of w "transport lib c"] Returns show ?thesis
    by (auto simp: BucketLocation_def split: prod.splits sum.splits option.splits)
qed

text \<open>
  Claim C10, as stated, fails: not every URL of the client has the form
  \<^verbatim>\<open>http://<hostname>/<bucket>/...\<close> with the configured hostname and the bucket as it is,
  and the listing marker is not the only component that is query-escaped.
  \<^verbatim>\<open>BucketLocation\<close> takes the host from its argument and escapes the bucket.
\<close>

theorem BucketLocation_url_counterexample:
  "map URL (requests (snd (BucketLocation (example_lib []) example_client ''a b'' ''s3.example.com'' (start []))))
     = [''http://s3.example.com/a+b/?location''] \<and>
   \<not> prefix (bucketURL example_client ''a b'') ''http://s3.example.com/a+b/?location'' \<and>
   bucketURL example_client ''a b'' = ''http://localhost/a b/''"
  by (simp add: BucketLocation_def BucketLocation_url_def example_defs go_QueryEscape_def escape_byte_def)

text \<open>
  Claim C10, amended. \<^verbatim>\<open>bucketURL\<close> is \<^verbatim>\<open>http://<hostname>/<bucket>/\<close> and \<^verbatim>\<open>keyURL\<close> appends
  the key: the scheme is plain http, the hostname is the configured one or \<^verbatim>\<open>localhost\<close>
  when that is empty, and bucket and key are inserted as they are. \<^verbatim>\<open>Stat\<close>, \<^verbatim>\<open>Get\<close>,
  \<^verbatim>\<open>GetPartial\<close> and \<^verbatim>\<open>Put\<close> send requests to the key's URL only and \<^verbatim>\<open>PutBucket\<close> to the
  bucket's URL only. A \<^verbatim>\<open>GetBucket\<close> call that returns has sent requests only to the
  bucket's URL followed by \<^verbatim>\<open>?marker=<m>&max-keys=<n>\<close>, where the marker is query-escaped
  and the number is in decimal. \<^verbatim>\<open>Buckets\<close> requests \<^verbatim>\<open>http://<hostname>/\<close>, and
  \<^verbatim>\<open>BucketLocation\<close> requests \<^verbatim>\<open>http://<h>/<b>/?location\<close> where \<^verbatim>\<open>h\<close> is its hostname
  argument as given and \<^verbatim>\<open>b\<close> is the query-escaped bucket.
\<close>

theorem request_urls:
  "bucketURL c bucket =
     ''http://'' @ (if Hostname c = '''' then ''localhost'' else Hostname c) @ ''/'' @ bucket @ ''/'' \<and>
   keyURL c bucket key = bucketURL c bucket @ key \<and>
   sends_only w (snd (Stat lib c key bucket w)) {keyURL c bucket key} \<and>
   sends_only w (snd (Get lib c bucket key w)) {keyURL c bucket key} \<and>
   sends_only w (snd (GetPartial lib c bucket key offset len w)) {keyURL c bucket key} \<and>
   sends_only w (snd (Put lib c bucket key md5 sz body w)) {keyURL c bucket key} \<and>
   sends_only w (snd (PutBucket lib c bucket w)) {bucketURL c bucket} \<and>
   (\<forall>r w'. GetBucket lib c bucket startAt maxKeys w = Some (r, w') \<longrightarrow>
      sends_only w w'
        {bucketURL c bucket @ ''?marker='' @ QueryEscape lib m @ ''&max-keys='' @ itoa n | m n. True}) \<and>
   sends_only w (snd (Buckets lib c w)) {''http://'' @ (if Hostname c = '''' then ''localhost'' else Hostname c) @ ''/''} \<and>
   sends_only w (snd (BucketLocation lib c bucket h w))
     {''http://'' @ h @ ''/'' @ QueryEscape lib bucket @ ''/?location''}"
proof (intro conjI allI impI)
  show "bucketURL c bucket =
     ''http://'' @ (if Hostname c = '''' then ''localhost'' else Hostname c) @ ''/'' @ bucket @ ''/''"
    by (simp add: bucketURL_def hostname_def)
  show "keyURL c bucket key = bucketURL c bucket @ key" by (simp add: keyURL_def)
  show "sends_only w (snd (Stat lib c key bucket w)) {keyURL c bucket key}" by (rule Stat_sends)
  show "sends_only w (snd (Get lib c bucket key w)) {keyURL c bucket key}" by (rule Get_sends)
  show "sends_only w (snd (GetPartial lib c bucket key offset len w)) {keyURL c bucket key}"
    by (rule GetPartial_sends)
  show "sends_only w (snd (Put lib c bucket key md5 sz body w)) {keyURL c bucket key}" by (rule Put_sends)
  show "sends_only w (snd (PutBucket lib c bucket w)) {bucketURL c bucket}" by (rule PutBucket_sends)
  show "sends_only w (snd (Buckets lib c w)) {''http://'' @ (if Hostname c = '''' then ''localhost'' else Hostname c) @ ''/''}"
  proof -
    have "Buckets_url c = ''http://'' @ (if Hostname c = '''' then ''localhost'' else Hostname c) @ ''/''"
      by (simp add: Buckets_url_def hostname_def)
    with Buckets_sends[of w lib c] show ?thesis by (simp only:)
  qed
  show "sends_only w (snd (BucketLocation lib c bucket h w))
     {''http://'' @ h @ ''/'' @ QueryEscape lib bucket @ ''/?location''}"
    using BucketLocation_sends[of w lib c bucket h] by (simp only: BucketLocation_url_def)
next
  fix r w'
  assume run: "GetBucket lib c bucket startAt maxKeys w = Some (r, w')"
  show "sends_only w w'
        {bucketURL c bucket @ ''?marker='' @ QueryEscape lib m @ ''&max-keys='' @ itoa n | m n. True}"
  proof (cases "maxKeys < 0")
    case True
    with run show ?thesis by (simp add: GetBucket_def sends_only_refl)
  next
    case False
    with run have "GetBucket_pages lib c bucket startAt maxKeys [] startAt w = Some (r, w')"
      by (simp add: GetBucket_def)
    from GetBucket_pages_sends[OF this] show ?thesis by (simp add: GetBucket_url_def)
  qed
qed

theorem request_urls_witness:
  "sends_only (start [response 200 ''p1''])
     (snd (the (GetBucket (example_lib [(''p1'', example_page ''bkt'' ''a b'' 3 [''a b''] False)])
                  example_client ''bkt'' ''a b'' 3 (start [response 200 ''p1'']))))
     {bucketURL example_client ''bkt'' @ ''?marker='' @ go_QueryEscape m @ ''&max-keys='' @ itoa n | m n. True} \<and>
   map URL (requests (snd (the (GetBucket (example_lib [(''p1'', example_page ''bkt'' ''a b'' 3 [''a b''] False)])
                  example_client ''bkt'' ''a b'' 3 (start [response 200 ''p1''])))))
     = [''http://localhost/bkt/?marker=a+b&max-keys=3'']"
proof -
  let ?lib = "example_lib [(''p1'', example_page ''bkt'' ''a b'' 3 [''a b''] False)]"
  obtain r w' where run: "GetBucket ?lib example_client ''bkt'' ''a b'' 3 (start [response 200 ''p1'']) = Some (r, w')"
    and u: "map URL (requests w') = [''http://localhost/bkt/?marker=a+b&max-keys=3'']"
    by (simp add: example_defs go_QueryEscape_def escape_byte_def itoa_def digits.simps)
  have q: "QueryEscape ?lib = go_QueryEscape" by (simp add: example_lib_def)
  have "\<forall>r w'. GetBucket ?lib example_client ''bkt'' ''a b'' 3 (start [response 200 ''p1'']) = Some (r, w') \<longrightarrow>
      sends_only (start [response 200 ''p1'']) w'
        {bucketURL example_client ''bkt'' @ ''?marker='' @ QueryEscape ?lib m @ ''&max-keys='' @ itoa n | m n. True}"
    by (rule request_urls[of example_client "''bkt''" "''k''" "start [response 200 ''p1'']" ?lib 0 0 None 0 "''''" "''a b''" 3 "''h''",
          THEN conjunct2, THEN conjunct2, THEN conjunct2, THEN conjunct2, THEN conjunct2, THEN conjunct2,
          THEN conjunct2, THEN conjunct1])
  with run have "sends_only (start [response 200 ''p1'']) w'
        {bucketURL example_client ''bkt'' @ ''?marker='' @ QueryEscape ?lib m @ ''&max-keys='' @ itoa n | m n. True}"
    by blast
  with run u show ?thesis by (simp only: q option.sel snd_conv simp_thms)
qed

end
